(* ===== verification/Shop_Prelude.thy ===== *)
theory Shop_Prelude
  imports Main "HOL-Library.Sublist"
begin

text \<open>
  Shared vocabulary of the development.

  The data-access layer of \<^verbatim>\<open>src/db.ts\<close> works on JavaScript arrays with three idioms:
  \<^item> \<^verbatim>\<open>xs.find(p)\<close> returns (a reference to) the first element that satisfies \<open>p\<close>, or
    \<^verbatim>\<open>undefined\<close>: this is \<^const>\<open>find\<close> of the list library, \<open>None\<close> for
    \<^verbatim>\<open>undefined\<close>;
  \<^item> \<^verbatim>\<open>xs.findIndex(p)\<close> returns the position of that element, or \<open>-1\<close>: this is
    \<open>findIndex\<close> below, \<open>None\<close> for \<open>-1\<close>;
  \<^item> a field assignment through the reference that \<^verbatim>\<open>find\<close> returned
    (\<^verbatim>\<open>const u = xs.find(p); if (u) u.f = e\<close>) changes the array in place, at the first
    element that satisfies \<open>p\<close> and nowhere else: this is \<open>modify_first\<close> below.
  The arrays come out of \<^verbatim>\<open>JSON.parse\<close>, so no object is shared between two positions
  and the in-place update is the only aliasing the code has.

  \<open>changed\<close> counts the positions at which two arrays differ; it states that an update
  changes one record and no more.

  The lemmas relate the three idioms to each other and to \<^const>\<open>length\<close>, \<^const>\<open>map\<close>,
  \<^const>\<open>sum_list\<close> and \<^const>\<open>map_of\<close>; the component theories prove their properties from
  them. The collection \<open>db_defs\<close> gathers the defining equations of the operations.
\<close>

named_theorems db_defs "defining equations of the data-access operations"

section \<open>Array idioms\<close>

fun findIndex :: "('a \<Rightarrow> bool) \<Rightarrow> 'a list \<Rightarrow> nat option" where
  "findIndex P [] = None"
| "findIndex P (x # xs) = (if P x then Some 0 else map_option Suc (findIndex P xs))"

fun modify_first :: "('a \<Rightarrow> bool) \<Rightarrow> ('a \<Rightarrow> 'a) \<Rightarrow> 'a list \<Rightarrow> 'a list" where
  "modify_first P f [] = []"
| "modify_first P f (x # xs) = (if P x then f x # xs else x # modify_first P f xs)"

text \<open>
  \<open>changed xs ys\<close> counts the positions at which two arrays differ, up to the length of the
  shorter one.
\<close>

definition changed :: "'a list \<Rightarrow> 'a list \<Rightarrow> nat" where
  "changed xs ys = length (filter (\<lambda>(x, y). x \<noteq> y) (zip xs ys))"

section \<open>Searching\<close>

lemma findIndex_None_iff: "findIndex P xs = None \<longleftrightarrow> (\<forall>x \<in> set xs. \<not> P x)"
  by (induction xs) auto

lemma findIndex_Some_iff:
  "findIndex P xs = Some i \<longleftrightarrow> i < length xs \<and> P (xs ! i) \<and> (\<forall>j < i. \<not> P (xs ! j))"
proof (induction xs arbitrary: i)
  case Nil
  then show ?case by simp
next
  case (Cons x xs)
  show ?case
  proof (cases "P x")
    case True
    then show ?thesis by (cases i) auto
  next
    case False
    then show ?thesis
      by (cases i) (auto simp: Cons.IH less_Suc_eq_0_disj)
  qed
qed

lemma find_findIndex: "find P xs = map_option (\<lambda>i. xs ! i) (findIndex P xs)"
  by (induction xs) (auto simp: option.map_comp comp_def)

lemma findIndex_find_None: "findIndex P xs = None \<longleftrightarrow> find P xs = None"
  by (auto simp: findIndex_None_iff find_None_iff)

lemma find_Some_set: "find P xs = Some x \<Longrightarrow> x \<in> set xs \<and> P x"
  by (induction xs) (auto split: if_splits)

lemma find_snoc:
  "find P (xs @ ys) = (case find P xs of None \<Rightarrow> find P ys | Some x \<Rightarrow> Some x)"
  by (induction xs) auto

lemma find_filter_hd:
  "find P xs = (case filter P xs of [] \<Rightarrow> None | x # _ \<Rightarrow> Some x)"
  by (induction xs) auto

lemma map_of_key_find:
  "map_of (map (\<lambda>x. (k x, v x)) xs) a = map_option v (find (\<lambda>x. k x = a) xs)"
  by (induction xs) auto

section \<open>In-place update of the first match\<close>

lemma length_modify_first [simp]: "length (modify_first P f xs) = length xs"
  by (induction xs) auto

lemma modify_first_absent: "find P xs = None \<Longrightarrow> modify_first P f xs = xs"
  by (induction xs) (auto split: if_splits)

lemma modify_first_update:
  "findIndex P xs = Some i \<Longrightarrow> modify_first P f xs = xs[i := f (xs ! i)]"
  by (induction xs arbitrary: i) (auto split: if_splits)

lemma map_modify_first_keep:
  "(\<And>x. P x \<Longrightarrow> g (f x) = g x) \<Longrightarrow> map g (modify_first P f xs) = map g xs"
  by (induction xs) auto

lemma find_modify_first_same:
  "(\<And>x. P x \<Longrightarrow> P (f x)) \<Longrightarrow> find P (modify_first P f xs) = map_option f (find P xs)"
  by (induction xs) auto

lemma find_modify_first_other:
  "(\<And>x. P x \<Longrightarrow> \<not> Q x \<and> \<not> Q (f x)) \<Longrightarrow> find Q (modify_first P f xs) = find Q xs"
  by (induction xs) auto

lemma sum_list_modify_first:
  fixes g :: "'a \<Rightarrow> int"
  shows "find P xs = Some y \<Longrightarrow>
    sum_list (map g (modify_first P f xs)) = sum_list (map g xs) - g y + g (f y)"
  by (induction xs) (auto split: if_splits)

lemma filter_modify_first_leave:
  "(\<And>x. P x \<Longrightarrow> \<not> P (f x)) \<Longrightarrow> filter P (modify_first P f xs) = tl (filter P xs)"
  by (induction xs) auto

lemma filter_modify_first_enter:
  "(\<And>x. P x \<Longrightarrow> \<not> P (f x)) \<Longrightarrow> find P xs = Some y \<Longrightarrow>
   filter (\<lambda>x. \<not> P x) (modify_first P f xs) =
     filter (\<lambda>x. \<not> P x) (takeWhile (\<lambda>x. \<not> P x) xs) @ f y #
     filter (\<lambda>x. \<not> P x) (tl (dropWhile (\<lambda>x. \<not> P x) xs))"
  by (induction xs) (auto split: if_splits)

lemma length_filter_modify_first_enter:
  "(\<And>x. P x \<Longrightarrow> \<not> P (f x)) \<Longrightarrow> find P xs = Some y \<Longrightarrow>
   length (filter (\<lambda>x. \<not> P x) (modify_first P f xs)) = Suc (length (filter (\<lambda>x. \<not> P x) xs))"
  by (induction xs) (auto split: if_splits)

lemma nth_modify_first:
  "n < length xs \<Longrightarrow>
   modify_first P f xs ! n = (if findIndex P xs = Some n then f (xs ! n) else xs ! n)"
proof (induction xs arbitrary: n)
  case Nil
  then show ?case by simp
next
  case (Cons x xs)
  then show ?case by (cases n) auto
qed

lemma list_all_modify_first_keep:
  "(\<And>x. P x \<Longrightarrow> g (f x) = g x) \<Longrightarrow>
   list_all (\<lambda>x. Q (g x)) (modify_first P f xs) = list_all (\<lambda>x. Q (g x)) xs"
  by (induction xs) auto

lemma modify_first_same: "find P xs = Some y \<Longrightarrow> modify_first P (\<lambda>_. y) xs = xs"
  by (induction xs) (auto split: if_splits)

lemma set_modify_first:
  "find P xs = Some y \<Longrightarrow> set (modify_first P f xs) \<subseteq> insert (f y) (set xs)"
  by (induction xs) (auto split: if_splits)

lemma modify_first_append:
  "modify_first P f (xs @ ys) =
     (if find P xs = None then xs @ modify_first P f ys else modify_first P f xs @ ys)"
  by (induction xs) auto

section \<open>Positions that differ\<close>

lemma changed_Nil [simp]: "changed [] ys = 0" "changed xs [] = 0"
  by (simp_all add: changed_def)

lemma changed_Cons [simp]:
  "changed (x # xs) (y # ys) = (if x = y then 0 else 1) + changed xs ys"
  by (simp add: changed_def)

lemma changed_append [simp]: "changed xs (xs @ ys) = 0"
  by (induction xs) auto

lemma changed_same [simp]: "changed xs xs = 0"
  using changed_append [of xs "[]"] by simp

lemma changed_modify_first [simp]: "changed xs (modify_first P f xs) \<le> Suc 0"
  by (induction xs) auto

lemma changed_0_iff: "length xs = length ys \<Longrightarrow> changed xs ys = 0 \<longleftrightarrow> xs = ys"
  by (induction xs ys rule: list_induct2) auto

section \<open>Arrays with unique keys\<close>

text \<open>
  When a key identifies the elements, the first match is the only match: the in-place update
  is a map over the array, and every element is found under its own key.
\<close>

lemma map_if_absent:
  "a \<notin> k ` set xs \<Longrightarrow> map (\<lambda>x. if k x = a then f x else x) xs = xs"
  by (induction xs) auto

lemma modify_first_distinct:
  "distinct (map k xs) \<Longrightarrow>
   modify_first (\<lambda>x. k x = a) f xs = map (\<lambda>x. if k x = a then f x else x) xs"
  by (induction xs) (auto simp: map_if_absent)

lemma find_distinct:
  "distinct (map k xs) \<Longrightarrow> x \<in> set xs \<Longrightarrow> find (\<lambda>y. k y = k x) xs = Some x"
  by (induction xs) (auto simp: rev_image_eqI)

lemma filter_key_distinct:
  "distinct (map k xs) \<Longrightarrow> length (filter (\<lambda>x. k x = a) xs) \<le> 1"
  by (induction xs) (auto simp: filter_empty_conv image_iff)

lemma set_filter_modify_first:
  "(\<And>x. P x \<Longrightarrow> \<not> Q (f x)) \<Longrightarrow> set (filter Q (modify_first P f xs)) \<subseteq> set (filter Q xs)"
  by (induction xs) auto

lemma distinct_filter_modify_first:
  assumes "\<And>x. P x \<Longrightarrow> \<not> Q (f x)" and "distinct (map g (filter Q xs))"
  shows "distinct (map g (filter Q (modify_first P f xs)))"
  using assms(2)
proof (induction xs)
  case Nil
  then show ?case by simp
next
  case (Cons x xs)
  then show ?case
    using set_filter_modify_first [of P Q f xs, OF assms(1)] by (auto simp: assms(1))
qed

end
