(* ===== verification/Shop_Types.thy ===== *)
theory Shop_Types
  imports Shop_Prelude
begin

text \<open>
  The entities of the shop, as \<^verbatim>\<open>src/db.ts\<close> imports them from \<^verbatim>\<open>./types\<close>. That
  module is not part of the sources, so the records are written from the data model of the
  specification (section 3) and from the fields that \<^verbatim>\<open>src/db.ts\<close> reads and writes.

  \<^item> A TypeScript \<^verbatim>\<open>number\<close> (credits, prices, amounts, counters, timestamps) is an
    \<^typ>\<open>int\<close>. This is exact for integral values of magnitude below \<open>2 ^ 53\<close>; fractions,
    \<^verbatim>\<open>NaN\<close> and the infinities of IEEE doubles are outside the model.
  \<^item> An optional field (\<^verbatim>\<open>content?\<close>, \<^verbatim>\<open>sequentialItems?\<close>) is an \<^typ>\<open>'a option\<close>.
  \<^item> Field names are those of the code where they are unique; a name that several entities
    share (\<^verbatim>\<open>id\<close>, \<^verbatim>\<open>userId\<close>, \<^verbatim>\<open>amount\<close>, \<^verbatim>\<open>content\<close>, \<^verbatim>\<open>status\<close>,
    \<^verbatim>\<open>timestamp\<close>, \<^verbatim>\<open>price\<close>, \<^verbatim>\<open>name\<close>, \<^verbatim>\<open>type\<close>) carries the entity as a prefix,
    since a record field is a constant of the theory.
\<close>

section \<open>Enumerations\<close>

datatype UserRole = USER | ADMIN

datatype ItemType = INSTANT | SEQUENTIAL

datatype TransactionStatus = PENDING | APPROVED | REJECTED

datatype TicketStatus = OPEN | CLOSED

section \<open>Entities\<close>

record User =
  user_id :: string
  role :: UserRole
  credits :: int

record SequentialItem =
  unit_content :: string
  isDelivered :: bool

record Item =
  item_id :: string
  item_name :: string
  item_price :: int
  item_type :: ItemType
  item_content :: "string option"
  sequentialItems :: "SequentialItem list option"
  deliveredCount :: int

record Purchase =
  purchase_id :: string
  purchase_userId :: string
  purchase_itemId :: string
  itemName :: string
  contentDelivered :: string
  purchase_timestamp :: int
  purchase_price :: int

record Transaction =
  tx_id :: string
  tx_userId :: string
  tx_amount :: int
  tx_status :: TransactionStatus

record RedeemCode =
  code :: string
  code_amount :: int
  isUsed :: bool

record TicketMessage =
  sender :: string
  message_content :: string
  message_timestamp :: int

record Ticket =
  ticket_id :: string
  messages :: "TicketMessage list"
  ticket_status :: TicketStatus
  lastUpdated :: int

end
