(* ===== verification/Storage.thy ===== *)
theory Storage
  imports Shop_Types
begin

text \<open>
  Persistence (\<^verbatim>\<open>src/db.ts\<close>, lines 7 to 34): the whole database is one document,
  \<open>DBState\<close>, kept under one key of the browser's \<^verbatim>\<open>localStorage\<close>.

  \<^verbatim>\<open>localStorage\<close> is a map from keys to stored values. The code stores
  \<^verbatim>\<open>JSON.stringify(state)\<close> and reads it back with \<^verbatim>\<open>JSON.parse\<close>; the model
  identifies a stored string with the document it encodes, so a stored value is a
  \<open>DBState\<close>. (For documents built from strings, booleans, finite numbers, arrays and
  optional fields, parsing the printed document gives the document back; a corrupt string
  under the key is outside the model, as it is outside the specification.)
  An absent key is \<open>None\<close>: \<^verbatim>\<open>getItem\<close> returns \<^verbatim>\<open>null\<close> and the code starts from
  the empty document, without writing it.

  The lemmas: what is saved is what is loaded next, saving touches no other key, and the
  last save wins.
\<close>

section \<open>The document and its store\<close>

record DBState =
  users :: "User list"
  items :: "Item list"
  purchases :: "Purchase list"
  transactions :: "Transaction list"
  redeemCodes :: "RedeemCode list"
  tickets :: "Ticket list"

type_synonym localStorage = "string \<rightharpoonup> DBState"

definition STORAGE_KEY :: string where
  "STORAGE_KEY = ''ebon_shop_db''"

definition getInitialState :: "localStorage \<Rightarrow> DBState" where
  "getInitialState ls =
     (case ls STORAGE_KEY of
        Some stored \<Rightarrow> stored
      | None \<Rightarrow> \<lparr>users = [], items = [], purchases = [], transactions = [],
                 redeemCodes = [], tickets = []\<rparr>)"

definition saveState :: "DBState \<Rightarrow> localStorage \<Rightarrow> localStorage" where
  "saveState state ls = ls(STORAGE_KEY \<mapsto> state)"

section \<open>Load and save\<close>

lemma getInitialState_saveState [simp]: "getInitialState (saveState state ls) = state"
  by (simp add: getInitialState_def saveState_def)

lemma saveState_saveState [simp]: "saveState s2 (saveState s1 ls) = saveState s2 ls"
  by (simp add: saveState_def)

lemma saveState_key [simp]: "saveState state ls STORAGE_KEY = Some state"
  by (simp add: saveState_def)

lemma saveState_other [simp]: "k \<noteq> STORAGE_KEY \<Longrightarrow> saveState state ls k = ls k"
  by (simp add: saveState_def)

lemma getInitialState_stored [simp]:
  "ls STORAGE_KEY = Some stored \<Longrightarrow> getInitialState ls = stored"
  by (simp add: getInitialState_def)

lemma getInitialState_first_run:
  "ls STORAGE_KEY = None \<Longrightarrow>
   getInitialState ls = \<lparr>users = [], items = [], purchases = [], transactions = [],
                          redeemCodes = [], tickets = []\<rparr>"
  by (simp add: getInitialState_def)

lemma saveState_getInitialState_stored:
  "ls STORAGE_KEY \<noteq> None \<Longrightarrow> saveState (getInitialState ls) ls = ls"
  by (auto simp: saveState_def getInitialState_def fun_eq_iff)

lemma saveState_eq_iff:
  "saveState s1 ls = saveState s2 ls \<longleftrightarrow> s1 = s2"
  by (metis getInitialState_saveState)

end
