(* ===== verification/Users.thy ===== *)
theory Users
  imports Storage
begin

text \<open>
  The user operations of \<^verbatim>\<open>DB\<close> (\<^verbatim>\<open>src/db.ts\<close>, lines 37 to 57): \<open>getUsers\<close>,
  \<open>addUser\<close>, \<open>verifyUser\<close> and \<open>updateUserCredits\<close>, each a load, a change of the
  document and a save.

  \<open>find_user\<close> is the lookup \<^verbatim>\<open>state.users.find(u => u.id === userId)\<close> that four
  operations of the layer share, and \<open>credit_user\<close> the assignment
  \<^verbatim>\<open>user.credits += amount\<close> through the reference it returns: the first user with the
  identifier is changed in place, a later user with the same identifier is never reached.
  \<open>balances\<close> is the abstract view of the users, a map from identifiers to credits; the
  refinement lemmas state every user operation as an operation on that map.
\<close>

section \<open>Operations\<close>

definition find_user :: "string \<Rightarrow> User list \<Rightarrow> User option" where
  "find_user userId us = find (\<lambda>u. user_id u = userId) us"

definition credit_user :: "string \<Rightarrow> int \<Rightarrow> User list \<Rightarrow> User list" where
  "credit_user userId amount us =
     modify_first (\<lambda>u. user_id u = userId) (\<lambda>u. u\<lparr>credits := credits u + amount\<rparr>) us"

definition getUsers :: "localStorage \<Rightarrow> User list" where
  "getUsers ls = users (getInitialState ls)"

definition addUser :: "User \<Rightarrow> localStorage \<Rightarrow> localStorage" where
  "addUser user ls =
     (let state = getInitialState ls;
          state = state\<lparr>users := users state @ [user]\<rparr>
      in saveState state ls)"

datatype verify_error = InvalidToken

definition verify_error_message :: "verify_error \<Rightarrow> string" where
  "verify_error_message e = ''Invalid or expired verification token''"

definition verifyUser :: "string \<Rightarrow> verify_error + unit" where
  "verifyUser token =
     (if token \<noteq> [] \<and> 0 < length token then Inr () else Inl InvalidToken)"

definition updateUserCredits :: "string \<Rightarrow> int \<Rightarrow> localStorage \<Rightarrow> localStorage" where
  "updateUserCredits userId amount ls =
     (let state = getInitialState ls;
          state = (case find_user userId (users state) of
                     Some user \<Rightarrow> state\<lparr>users := credit_user userId amount (users state)\<rparr>
                   | None \<Rightarrow> state)
      in saveState state ls)"

lemmas [db_defs] = getUsers_def addUser_def updateUserCredits_def

section \<open>The abstract view: balances\<close>

definition balances :: "User list \<Rightarrow> string \<rightharpoonup> int" where
  "balances us uid = map_option credits (find_user uid us)"

text \<open>
  The two operations of the abstract view: opening an account, which has no effect on an
  identifier that already has a balance, and crediting an account (by an amount of either
  sign), which has no effect on an identifier without a balance.
\<close>

definition open_account :: "string \<Rightarrow> int \<Rightarrow> (string \<rightharpoonup> int) \<Rightarrow> (string \<rightharpoonup> int)" where
  "open_account uid c b = (case b uid of None \<Rightarrow> b(uid \<mapsto> c) | Some x \<Rightarrow> b)"

definition credit_account :: "string \<Rightarrow> int \<Rightarrow> (string \<rightharpoonup> int) \<Rightarrow> (string \<rightharpoonup> int)" where
  "credit_account uid a b = (case b uid of None \<Rightarrow> b | Some x \<Rightarrow> b(uid \<mapsto> x + a))"

definition total_credits :: "User list \<Rightarrow> int" where
  "total_credits us = sum_list (map credits us)"

section \<open>Lookup and credit\<close>

lemma find_user_Nil [simp]: "find_user uid [] = None"
  by (simp add: find_user_def)

lemma find_user_Cons [simp]:
  "find_user uid (u # us) = (if user_id u = uid then Some u else find_user uid us)"
  by (simp add: find_user_def)

lemma find_user_append:
  "find_user uid (us @ vs) = (case find_user uid us of None \<Rightarrow> find_user uid vs | Some u \<Rightarrow> Some u)"
  by (induction us) auto

lemma find_user_Some: "find_user uid us = Some u \<Longrightarrow> u \<in> set us \<and> user_id u = uid"
  using find_Some_set [of "\<lambda>u. user_id u = uid" us u] by (simp add: find_user_def)

lemma credit_user_Nil [simp]: "credit_user uid a [] = []"
  by (simp add: credit_user_def)

lemma credit_user_Cons [simp]:
  "credit_user uid a (u # us) =
     (if user_id u = uid then u\<lparr>credits := credits u + a\<rparr> # us else u # credit_user uid a us)"
  by (simp add: credit_user_def)

lemma length_credit_user [simp]: "length (credit_user uid a us) = length us"
  by (simp add: credit_user_def)

lemma map_user_id_credit_user [simp]: "map user_id (credit_user uid a us) = map user_id us"
  by (simp add: credit_user_def map_modify_first_keep)

lemma map_role_credit_user [simp]: "map role (credit_user uid a us) = map role us"
  by (simp add: credit_user_def map_modify_first_keep)

lemma credit_user_absent: "find_user uid us = None \<Longrightarrow> credit_user uid a us = us"
  by (simp add: credit_user_def find_user_def modify_first_absent)

lemma find_user_credit_user_same:
  "find_user uid (credit_user uid a us) =
     map_option (\<lambda>u. u\<lparr>credits := credits u + a\<rparr>) (find_user uid us)"
  by (simp add: credit_user_def find_user_def find_modify_first_same)

lemma find_user_credit_user_other:
  "uid' \<noteq> uid \<Longrightarrow> find_user uid' (credit_user uid a us) = find_user uid' us"
  by (simp add: credit_user_def find_user_def find_modify_first_other)

lemma find_user_credit_user:
  "find_user uid' (credit_user uid a us) =
     (if uid' = uid then map_option (\<lambda>u. u\<lparr>credits := credits u + a\<rparr>) (find_user uid us)
      else find_user uid' us)"
  by (simp add: find_user_credit_user_same find_user_credit_user_other)

lemma sum_credits_credit_user:
  "find_user uid us = Some u \<Longrightarrow>
   sum_list (map credits (credit_user uid a us)) = sum_list (map credits us) + a"
  using sum_list_modify_first [of "\<lambda>u. user_id u = uid" us u credits]
  by (simp add: credit_user_def find_user_def)

lemma total_credits_credit_user:
  "total_credits (credit_user uid a us) =
     total_credits us + (if find_user uid us = None then 0 else a)"
  by (cases "find_user uid us")
     (auto simp: total_credits_def credit_user_absent sum_credits_credit_user)

lemma total_credits_Nil [simp]: "total_credits [] = 0"
  by (simp add: total_credits_def)

lemma total_credits_Cons [simp]: "total_credits (u # us) = credits u + total_credits us"
  by (simp add: total_credits_def)

lemma total_credits_append [simp]: "total_credits (us @ vs) = total_credits us + total_credits vs"
  by (simp add: total_credits_def)

lemma credit_user_nonneg:
  "list_all (\<lambda>u. 0 \<le> credits u) us \<Longrightarrow>
   (\<And>u. find_user uid us = Some u \<Longrightarrow> 0 \<le> credits u + a) \<Longrightarrow>
   list_all (\<lambda>u. 0 \<le> credits u) (credit_user uid a us)"
  by (induction us) auto

lemma credit_user_zero [simp]: "credit_user uid 0 us = us"
  by (induction us) auto

lemma credit_user_credit_user:
  "credit_user uid b (credit_user uid a us) = credit_user uid (a + b) us"
  by (induction us) (auto simp: add.assoc)

lemma balances_map_of: "balances us = map_of (map (\<lambda>u. (user_id u, credits u)) us)"
  by (simp add: balances_def find_user_def map_of_key_find fun_eq_iff)

lemma balances_credit_user:
  "balances (credit_user uid a us) = credit_account uid a (balances us)"
  by (auto simp: balances_def credit_account_def find_user_credit_user fun_eq_iff
           split: option.splits)

lemma balances_append:
  "balances (us @ [u]) = open_account (user_id u) (credits u) (balances us)"
  by (auto simp: balances_def open_account_def find_user_append fun_eq_iff
           split: option.splits)

lemma credit_account_absent: "b uid = None \<Longrightarrow> credit_account uid a b = b"
  by (simp add: credit_account_def)

lemma open_account_present: "b uid = Some x \<Longrightarrow> open_account uid c b = b"
  by (simp add: open_account_def)

section \<open>The state after each operation\<close>

lemma getInitialState_addUser [simp]:
  "getInitialState (addUser user ls) =
     (getInitialState ls)\<lparr>users := users (getInitialState ls) @ [user]\<rparr>"
  by (simp add: addUser_def Let_def)

lemma getInitialState_updateUserCredits [simp]:
  "getInitialState (updateUserCredits uid a ls) =
     (getInitialState ls)\<lparr>users := credit_user uid a (users (getInitialState ls))\<rparr>"
  by (simp add: updateUserCredits_def Let_def credit_user_absent split: option.splits)

lemma updateUserCredits_persists: "updateUserCredits uid a ls STORAGE_KEY \<noteq> None"
  by (simp add: updateUserCredits_def Let_def)

lemma addUser_other_key: "k \<noteq> STORAGE_KEY \<Longrightarrow> addUser user ls k = ls k"
  by (simp add: addUser_def Let_def)

lemma updateUserCredits_other_key:
  "k \<noteq> STORAGE_KEY \<Longrightarrow> updateUserCredits uid a ls k = ls k"
  by (simp add: updateUserCredits_def Let_def)

lemma verifyUser_simps [simp]:
  "verifyUser [] = Inl InvalidToken"
  "verifyUser (c # cs) = Inr ()"
  by (simp_all add: verifyUser_def)

section \<open>Properties\<close>

text \<open>
  C28: \<open>updateUserCredits\<close>, seen through lookups by identifier: the user that
  \<open>find_user userId\<close> returns has \<open>amount\<close> (which may be negative) added to its credits and
  is otherwise the same record; the lookup of every other identifier returns what it returned
  before; a missing user stays missing.
\<close>

theorem updateUserCredits_lookup:
  "find_user uid (getUsers (updateUserCredits userId amount ls)) =
     (if uid = userId
      then map_option (\<lambda>u. u\<lparr>credits := credits u + amount\<rparr>) (find_user userId (getUsers ls))
      else find_user uid (getUsers ls))"
  by (simp add: getUsers_def find_user_credit_user)

text \<open>
  C29: \<open>updateUserCredits\<close> credits one account at most: the sum of all credits grows by
  \<open>amount\<close> when a user with the identifier exists, also when several records carry that
  identifier, and is unchanged when none does. The records keep their order and identifiers.
\<close>

theorem updateUserCredits_total:
  "total_credits (getUsers (updateUserCredits userId amount ls)) =
     total_credits (getUsers ls) +
       (if find_user userId (getUsers ls) = None then 0 else amount) \<and>
   map user_id (getUsers (updateUserCredits userId amount ls)) = map user_id (getUsers ls)"
  by (simp add: getUsers_def total_credits_credit_user)

text \<open>
  C30: when no user has the identifier, \<open>updateUserCredits\<close> changes nothing in the document
  but still saves it: the key is present afterwards, also on a first run where it was absent,
  and no other key of the storage is touched.
\<close>

theorem updateUserCredits_missing:
  assumes "find_user userId (getUsers ls) = None"
  shows "getInitialState (updateUserCredits userId amount ls) = getInitialState ls \<and>
         updateUserCredits userId amount ls STORAGE_KEY = Some (getInitialState ls) \<and>
         (\<forall>k. k \<noteq> STORAGE_KEY \<longrightarrow> updateUserCredits userId amount ls k = ls k)"
  using assms
  by (simp add: getUsers_def updateUserCredits_def Let_def)

theorem updateUserCredits_missing_witness:
  "find_user ''ghost'' (getUsers Map.empty) = None \<and>
   updateUserCredits ''ghost'' 5 Map.empty STORAGE_KEY =
     Some \<lparr>users = [], items = [], purchases = [], transactions = [],
           redeemCodes = [], tickets = []\<rparr>"
  using updateUserCredits_missing [of "''ghost''" Map.empty 5]
  by (simp add: getUsers_def getInitialState_def)

text \<open>
  \<open>verifyUser\<close> accepts exactly the non-empty tokens and looks nothing up; the empty
  token is answered with the error whose text is the one of the code.
\<close>

lemma verifyUser_policy:
  "verifyUser token = (if token = [] then Inl InvalidToken else Inr ()) \<and>
   verify_error_message InvalidToken = ''Invalid or expired verification token''"
  by (cases token) (simp_all add: verify_error_message_def)

text \<open>
  \<open>addUser\<close> appends the record, whatever its identifier: the users are read back in
  insertion order with the new record last, and no other collection of the document
  changes.
\<close>

lemma getUsers_addUser:
  "getUsers (addUser user ls) = getUsers ls @ [user] \<and>
   getInitialState (addUser user ls) = (getInitialState ls)\<lparr>users := getUsers ls @ [user]\<rparr>"
  by (simp add: getUsers_def)

text \<open>
  C40: \<open>addUser\<close> performs no uniqueness check, and a record appended under an identifier
  that is already taken is shadowed: lookups by that identifier keep returning the older
  record, and the balance map is unchanged.
\<close>

theorem addUser_duplicate_shadowed:
  assumes "find_user (user_id user) (getUsers ls) = Some u"
  shows "find_user (user_id user) (getUsers (addUser user ls)) = Some u \<and>
         balances (getUsers (addUser user ls)) = balances (getUsers ls) \<and>
         length (getUsers (addUser user ls)) = Suc (length (getUsers ls))"
  using assms
  by (simp add: getUsers_def find_user_append balances_append open_account_def balances_def)

theorem addUser_duplicate_shadowed_witness:
  "find_user ''u1'' (getUsers (addUser \<lparr>user_id = ''u1'', role = ADMIN, credits = 999\<rparr>
       (addUser \<lparr>user_id = ''u1'', role = USER, credits = 100\<rparr> Map.empty))) =
     Some \<lparr>user_id = ''u1'', role = USER, credits = 100\<rparr>"
  using addUser_duplicate_shadowed
    [of "\<lparr>user_id = ''u1'', role = ADMIN, credits = 999\<rparr>"
        "addUser \<lparr>user_id = ''u1'', role = USER, credits = 100\<rparr> Map.empty"
        "\<lparr>user_id = ''u1'', role = USER, credits = 100\<rparr>"]
  by (simp add: getUsers_def getInitialState_first_run)

end
