(* ===== verification/Items.thy ===== *)
theory Items
  imports Storage
begin

text \<open>
  The item operations of \<^verbatim>\<open>DB\<close> (\<^verbatim>\<open>src/db.ts\<close>, lines 59 to 80): \<open>getItems\<close>,
  \<open>addItem\<close>, \<open>updateItem\<close> and \<open>deleteItem\<close>, and the lookup \<open>find_item\<close> that
  \<^verbatim>\<open>processPurchase\<close> uses.

  \<open>updateItem\<close> is the one operation of the layer that reports failure by a boolean and
  does not save in that case: it returns the storage it was given. \<open>deleteItem\<close> filters,
  so it removes every record with the identifier.

  \<open>item_op\<close> and \<open>run_item_ops\<close> describe a sequence of additions and deletions as a
  caller issues them; \<open>deleted\<close> and \<open>net\<close> say declaratively what such a sequence leaves,
  and the last theorem shows that the operations compute exactly that.
\<close>

section \<open>Operations\<close>

definition find_item :: "string \<Rightarrow> Item list \<Rightarrow> Item option" where
  "find_item itemId xs = find (\<lambda>i. item_id i = itemId) xs"

definition getItems :: "localStorage \<Rightarrow> Item list" where
  "getItems ls = items (getInitialState ls)"

definition addItem :: "Item \<Rightarrow> localStorage \<Rightarrow> localStorage" where
  "addItem item ls =
     (let state = getInitialState ls;
          state = state\<lparr>items := items state @ [item]\<rparr>
      in saveState state ls)"

definition updateItem :: "Item \<Rightarrow> localStorage \<Rightarrow> bool \<times> localStorage" where
  "updateItem item ls =
     (let state = getInitialState ls;
          index = findIndex (\<lambda>i. item_id i = item_id item) (items state)
      in case index of
           Some n \<Rightarrow> (True, saveState (state\<lparr>items := (items state)[n := item]\<rparr>) ls)
         | None \<Rightarrow> (False, ls))"

definition deleteItem :: "string \<Rightarrow> localStorage \<Rightarrow> localStorage" where
  "deleteItem itemId ls =
     (let state = getInitialState ls;
          state = state\<lparr>items := filter (\<lambda>i. item_id i \<noteq> itemId) (items state)\<rparr>
      in saveState state ls)"

lemmas [db_defs] = getItems_def addItem_def updateItem_def deleteItem_def

section \<open>Sequences of additions and deletions\<close>

datatype item_op = Add Item | Delete string

fun item_step :: "item_op \<Rightarrow> localStorage \<Rightarrow> localStorage" where
  "item_step (Add item) ls = addItem item ls"
| "item_step (Delete itemId) ls = deleteItem itemId ls"

fun run_item_ops :: "item_op list \<Rightarrow> localStorage \<Rightarrow> localStorage" where
  "run_item_ops [] ls = ls"
| "run_item_ops (op # ops) ls = run_item_ops ops (item_step op ls)"

fun deleted :: "item_op list \<Rightarrow> string set" where
  "deleted [] = {}"
| "deleted (Add item # ops) = deleted ops"
| "deleted (Delete itemId # ops) = insert itemId (deleted ops)"

fun net :: "item_op list \<Rightarrow> Item list" where
  "net [] = []"
| "net (Add item # ops) = (if item_id item \<in> deleted ops then net ops else item # net ops)"
| "net (Delete itemId # ops) = net ops"

section \<open>Lookup\<close>

lemma find_item_Nil [simp]: "find_item k [] = None"
  by (simp add: find_item_def)

lemma find_item_Cons [simp]:
  "find_item k (i # xs) = (if item_id i = k then Some i else find_item k xs)"
  by (simp add: find_item_def)

lemma find_item_Some: "find_item k xs = Some i \<Longrightarrow> i \<in> set xs \<and> item_id i = k"
  using find_Some_set [of "\<lambda>i. item_id i = k" xs i] by (simp add: find_item_def)

lemma find_item_None_iff: "find_item k xs = None \<longleftrightarrow> k \<notin> item_id ` set xs"
  by (induction xs) auto

lemma find_item_append:
  "find_item k (xs @ ys) = (case find_item k xs of None \<Rightarrow> find_item k ys | Some i \<Rightarrow> Some i)"
  by (induction xs) auto

lemma find_item_filter:
  "find_item k (filter (\<lambda>i. item_id i \<noteq> k') xs) = (if k = k' then None else find_item k xs)"
  by (induction xs) auto

lemma find_item_findIndex:
  "find_item k xs = map_option (\<lambda>n. xs ! n) (findIndex (\<lambda>i. item_id i = k) xs)"
  by (simp add: find_item_def find_findIndex)

lemma findIndex_item_None:
  "findIndex (\<lambda>i. item_id i = k) xs = None \<longleftrightarrow> find_item k xs = None"
  by (simp add: find_item_def findIndex_find_None)

lemma replace_at_index:
  "findIndex (\<lambda>i. item_id i = item_id item) xs = Some n \<Longrightarrow>
   xs[n := item] = modify_first (\<lambda>i. item_id i = item_id item) (\<lambda>_. item) xs"
  by (simp add: modify_first_update)

lemma find_item_replace:
  "item_id item = k' \<Longrightarrow>
   find_item k (modify_first (\<lambda>i. item_id i = k') (\<lambda>_. item) xs) =
     (if k = k' then map_option (\<lambda>_. item) (find_item k xs) else find_item k xs)"
  by (induction xs) auto

section \<open>The state after each operation\<close>

lemma getInitialState_addItem [simp]:
  "getInitialState (addItem item ls) =
     (getInitialState ls)\<lparr>items := items (getInitialState ls) @ [item]\<rparr>"
  by (simp add: addItem_def Let_def)

lemma getInitialState_deleteItem [simp]:
  "getInitialState (deleteItem k ls) =
     (getInitialState ls)\<lparr>items := filter (\<lambda>i. item_id i \<noteq> k) (items (getInitialState ls))\<rparr>"
  by (simp add: deleteItem_def Let_def)

lemma getItems_addItem [simp]: "getItems (addItem item ls) = getItems ls @ [item]"
  by (simp add: getItems_def)

lemma getItems_deleteItem [simp]:
  "getItems (deleteItem k ls) = filter (\<lambda>i. item_id i \<noteq> k) (getItems ls)"
  by (simp add: getItems_def)

lemma updateItem_absent:
  "find_item (item_id item) (getItems ls) = None \<Longrightarrow> updateItem item ls = (False, ls)"
  by (auto simp: updateItem_def Let_def getItems_def find_item_findIndex split: option.splits)

lemma updateItem_present:
  assumes "find_item (item_id item) (getItems ls) = Some old"
  shows "updateItem item ls =
     (True, saveState ((getInitialState ls)
        \<lparr>items := modify_first (\<lambda>i. item_id i = item_id item) (\<lambda>_. item) (getItems ls)\<rparr>) ls)"
proof -
  from assms obtain n where "findIndex (\<lambda>i. item_id i = item_id item) (getItems ls) = Some n"
    by (auto simp: find_item_findIndex)
  then show ?thesis
    by (simp add: updateItem_def Let_def getItems_def replace_at_index)
qed

lemma getInitialState_updateItem:
  "getInitialState (snd (updateItem item ls)) =
     (getInitialState ls)\<lparr>items :=
        modify_first (\<lambda>i. item_id i = item_id item) (\<lambda>_. item) (items (getInitialState ls))\<rparr>"
proof (cases "find_item (item_id item) (getItems ls)")
  case None
  then show ?thesis
    by (simp add: updateItem_absent)
       (simp add: getItems_def find_item_def modify_first_absent)
next
  case (Some old)
  then show ?thesis by (simp add: updateItem_present getItems_def)
qed

lemma getItems_run_item_ops_append:
  "run_item_ops (ops @ ops') ls = run_item_ops ops' (run_item_ops ops ls)"
  by (induction ops arbitrary: ls) auto

section \<open>Properties\<close>

text \<open>
  C25: \<open>updateItem\<close> answers whether an item with the identifier of its argument exists.
  If one does, the first such record is replaced at its position by the argument: the list
  keeps its length and its identifiers in order, the lookup of that identifier returns the
  new record and every other lookup is unchanged. If none does, the answer is \<open>False\<close> and
  the storage is returned as it was, without a write.
\<close>

theorem updateItem_replaces:
  "fst (updateItem item ls) = (find_item (item_id item) (getItems ls) \<noteq> None) \<and>
   map item_id (getItems (snd (updateItem item ls))) = map item_id (getItems ls) \<and>
   find_item k (getItems (snd (updateItem item ls))) =
     (if k = item_id item \<and> find_item k (getItems ls) \<noteq> None then Some item
      else find_item k (getItems ls)) \<and>
   (find_item (item_id item) (getItems ls) = None \<longrightarrow> snd (updateItem item ls) = ls)"
proof (cases "find_item (item_id item) (getItems ls)")
  case None
  then show ?thesis by (auto simp: updateItem_absent)
next
  case (Some old)
  then show ?thesis
    by (auto simp: updateItem_present getItems_def find_item_replace map_modify_first_keep)
qed

theorem updateItem_replaces_witness:
  "updateItem \<lparr>item_id = ''i9'', item_name = ''Key'', item_price = 30, item_type = INSTANT,
       item_content = Some ''CODE123'', sequentialItems = None, deliveredCount = 0\<rparr> Map.empty
     = (False, Map.empty) \<and>
   fst (updateItem \<lparr>item_id = ''i9'', item_name = ''Key'', item_price = 30, item_type = INSTANT,
       item_content = Some ''CODE123'', sequentialItems = None, deliveredCount = 0\<rparr>
     (addItem \<lparr>item_id = ''i9'', item_name = ''Old key'', item_price = 10, item_type = INSTANT,
       item_content = None, sequentialItems = None, deliveredCount = 0\<rparr> Map.empty)) \<and>
   find_item ''i9'' (getItems (snd
     (updateItem \<lparr>item_id = ''i9'', item_name = ''Key'', item_price = 30, item_type = INSTANT,
       item_content = Some ''CODE123'', sequentialItems = None, deliveredCount = 0\<rparr>
     (addItem \<lparr>item_id = ''i9'', item_name = ''Old key'', item_price = 10, item_type = INSTANT,
       item_content = None, sequentialItems = None, deliveredCount = 0\<rparr> Map.empty)))) =
     Some \<lparr>item_id = ''i9'', item_name = ''Key'', item_price = 30, item_type = INSTANT,
       item_content = Some ''CODE123'', sequentialItems = None, deliveredCount = 0\<rparr>"
  using updateItem_replaces
    [of "\<lparr>item_id = ''i9'', item_name = ''Key'', item_price = 30, item_type = INSTANT,
       item_content = Some ''CODE123'', sequentialItems = None, deliveredCount = 0\<rparr>" Map.empty]
    updateItem_replaces
    [of "\<lparr>item_id = ''i9'', item_name = ''Key'', item_price = 30, item_type = INSTANT,
       item_content = Some ''CODE123'', sequentialItems = None, deliveredCount = 0\<rparr>"
      "addItem \<lparr>item_id = ''i9'', item_name = ''Old key'', item_price = 10, item_type = INSTANT,
       item_content = None, sequentialItems = None, deliveredCount = 0\<rparr> Map.empty" "''i9''"]
  by (simp add: getItems_def getInitialState_first_run prod_eq_iff)

text \<open>
  C27: \<open>deleteItem\<close> removes every record with the identifier, not only the first: no
  record with it is left, the lookup of every other identifier is unchanged, and the
  survivors are the other records in their original order.
\<close>

theorem deleteItem_removes_all:
  "getItems (deleteItem itemId ls) = filter (\<lambda>i. item_id i \<noteq> itemId) (getItems ls) \<and>
   itemId \<notin> item_id ` set (getItems (deleteItem itemId ls)) \<and>
   find_item k (getItems (deleteItem itemId ls)) =
     (if k = itemId then None else find_item k (getItems ls))"
  by (auto simp: find_item_filter)

text \<open>
  C26: for any sequence of \<open>addItem\<close> and \<open>deleteItem\<close> calls, \<open>getItems\<close> afterwards is the
  net result: the items that were there before and whose identifier the sequence never
  deletes, followed by the added items whose identifier is not deleted later in the
  sequence, all in insertion order.
\<close>

theorem getItems_run_item_ops:
  "getItems (run_item_ops ops ls) =
     filter (\<lambda>i. item_id i \<notin> deleted ops) (getItems ls) @ net ops"
proof (induction ops arbitrary: ls)
  case Nil
  then show ?case by simp
next
  case (Cons op ops)
  show ?case
  proof (cases op)
    case (Add item)
    then show ?thesis by (simp add: Cons.IH)
  next
    case (Delete itemId)
    then show ?thesis by (simp add: Cons.IH)
  qed
qed

end
