(* ===== verification/Purchases.thy ===== *)
theory Purchases
  imports Users Items
begin

text \<open>
  The purchase operations of \<^verbatim>\<open>DB\<close> (\<^verbatim>\<open>src/db.ts\<close>, lines 82 to 121):
  \<open>getPurchases\<close>, \<open>addPurchase\<close> and \<open>processPurchase\<close>, the one operation that changes
  three collections at once.

  \<open>processPurchase userId itemId newId now\<close> takes the two values the code draws from its
  environment as parameters: \<open>newId\<close> is \<^verbatim>\<open>Math.random().toString(36).substring(7)\<close>
  and \<open>now\<close> is \<^verbatim>\<open>Date.now()\<close>. Its result is \<open>Inr content\<close> for
  \<^verbatim>\<open>{success: true, content}\<close> and \<open>Inl e\<close> for \<^verbatim>\<open>{success: false, error}\<close>,
  with \<open>purchase_error_message e\<close> the error string. \<open>fulfil\<close> is the delivery branch
  (lines 97 to 106): the content to hand out and the item as the code leaves it, or
  \<open>None\<close> where the code returns "Out of stock".

  \<open>units\<close>, \<open>available\<close> and \<open>delivered\<close> name the stock of an item for the
  statements; \<open>stock_consistent\<close> is the invariant that ties \<^verbatim>\<open>deliveredCount\<close> to
  the delivered units.
\<close>

section \<open>Operations\<close>

datatype purchase_error = UserOrItemNotFound | InsufficientCredits | OutOfStock

fun purchase_error_message :: "purchase_error \<Rightarrow> string" where
  "purchase_error_message UserOrItemNotFound = ''User or Item not found''"
| "purchase_error_message InsufficientCredits = ''Insufficient credits''"
| "purchase_error_message OutOfStock = ''Out of stock''"

definition getPurchases :: "localStorage \<Rightarrow> Purchase list" where
  "getPurchases ls = purchases (getInitialState ls)"

definition addPurchase :: "Purchase \<Rightarrow> localStorage \<Rightarrow> localStorage" where
  "addPurchase purchase ls =
     (let state = getInitialState ls;
          state = state\<lparr>purchases := purchases state @ [purchase]\<rparr>
      in saveState state ls)"

definition fulfil :: "Item \<Rightarrow> (string \<times> Item) option" where
  "fulfil item =
     (if item_type item = INSTANT
      then Some (case item_content item of Some c \<Rightarrow> c | None \<Rightarrow> [], item)
      else
        (case (case sequentialItems item of
                 None \<Rightarrow> None
               | Some sis \<Rightarrow> find (\<lambda>si. \<not> isDelivered si) sis) of
           None \<Rightarrow> None
         | Some available \<Rightarrow>
             Some (unit_content available,
                   item\<lparr>sequentialItems :=
                          map_option (modify_first (\<lambda>si. \<not> isDelivered si)
                                        (\<lambda>si. si\<lparr>isDelivered := True\<rparr>))
                            (sequentialItems item),
                        deliveredCount := deliveredCount item + 1\<rparr>)))"

definition processPurchase ::
  "string \<Rightarrow> string \<Rightarrow> string \<Rightarrow> int \<Rightarrow> localStorage \<Rightarrow> (purchase_error + string) \<times> localStorage"
where
  "processPurchase userId itemId newId now ls =
     (let state = getInitialState ls;
          user = find_user userId (users state);
          item = find_item itemId (items state)
      in case (user, item) of
           (Some user, Some item) \<Rightarrow>
             if credits user < item_price item then (Inl InsufficientCredits, ls)
             else
               (case fulfil item of
                  None \<Rightarrow> (Inl OutOfStock, ls)
                | Some (content, item') \<Rightarrow>
                    let purchase =
                          \<lparr>purchase_id = newId, purchase_userId = userId,
                           purchase_itemId = itemId, itemName = item_name item',
                           contentDelivered = content, purchase_timestamp = now,
                           purchase_price = item_price item'\<rparr>;
                        state = state
                          \<lparr>items := modify_first (\<lambda>i. item_id i = itemId) (\<lambda>_. item') (items state),
                           users := credit_user userId (- item_price item') (users state),
                           purchases := purchases state @ [purchase]\<rparr>
                    in (Inr content, saveState state ls))
         | _ \<Rightarrow> (Inl UserOrItemNotFound, ls))"

lemmas [db_defs] = getPurchases_def addPurchase_def processPurchase_def

section \<open>Stock\<close>

definition units :: "Item \<Rightarrow> SequentialItem list" where
  "units item = (case sequentialItems item of None \<Rightarrow> [] | Some sis \<Rightarrow> sis)"

definition available :: "Item \<Rightarrow> SequentialItem list" where
  "available item = filter (\<lambda>si. \<not> isDelivered si) (units item)"

definition delivered :: "Item \<Rightarrow> SequentialItem list" where
  "delivered item = filter isDelivered (units item)"

definition stock_consistent :: "Item \<Rightarrow> bool" where
  "stock_consistent item \<longleftrightarrow> deliveredCount item = int (length (delivered item))"

definition instant_content :: "Item \<Rightarrow> string" where
  "instant_content item = (case item_content item of Some c \<Rightarrow> c | None \<Rightarrow> [])"

definition mark_delivered :: "Item \<Rightarrow> Item" where
  "mark_delivered item =
     item\<lparr>sequentialItems :=
            map_option (modify_first (\<lambda>si. \<not> isDelivered si) (\<lambda>si. si\<lparr>isDelivered := True\<rparr>))
              (sequentialItems item),
          deliveredCount := deliveredCount item + 1\<rparr>"

definition revenue :: "Purchase list \<Rightarrow> int" where
  "revenue ps = sum_list (map purchase_price ps)"

section \<open>Sequences of purchases\<close>

text \<open>
  A buyer who calls \<open>processPurchase\<close> for the same item again and again; each call draws
  its own identifier and timestamp, so the environment is a list of such pairs. The results
  are collected in call order.
\<close>

fun purchase_all ::
  "string \<Rightarrow> string \<Rightarrow> (string \<times> int) list \<Rightarrow> localStorage \<Rightarrow>
   (purchase_error + string) list \<times> localStorage"
where
  "purchase_all userId itemId [] ls = ([], ls)"
| "purchase_all userId itemId ((newId, now) # env) ls =
     (let (r, ls') = processPurchase userId itemId newId now ls;
          (rs, ls'') = purchase_all userId itemId env ls'
      in (r # rs, ls''))"

section \<open>The delivery branch\<close>

lemma fulfil_instant:
  "item_type item = INSTANT \<Longrightarrow> fulfil item = Some (instant_content item, item)"
  by (simp add: fulfil_def instant_content_def)

lemma find_available: "(case sequentialItems item of
     None \<Rightarrow> None | Some sis \<Rightarrow> find (\<lambda>si. \<not> isDelivered si) sis) =
   (case available item of [] \<Rightarrow> None | a # _ \<Rightarrow> Some a)"
  by (simp add: available_def units_def find_filter_hd split: option.splits)

lemma fulfil_sequential:
  "item_type item \<noteq> INSTANT \<Longrightarrow>
   fulfil item = (case available item of
                    [] \<Rightarrow> None
                  | a # _ \<Rightarrow> Some (unit_content a, mark_delivered item))"
  by (simp add: fulfil_def find_available mark_delivered_def split: list.splits)

lemma fulfil_None_iff:
  "fulfil item = None \<longleftrightarrow> item_type item \<noteq> INSTANT \<and> available item = []"
  by (cases "item_type item = INSTANT")
     (auto simp: fulfil_instant fulfil_sequential split: list.splits)

lemma fulfil_keeps:
  assumes "fulfil item = Some (c, item')"
  shows "item_id item' = item_id item" "item_price item' = item_price item"
    "item_name item' = item_name item" "item_type item' = item_type item"
    "item_content item' = item_content item"
  using assms
  by (cases "item_type item = INSTANT";
      auto simp: fulfil_instant fulfil_sequential mark_delivered_def split: list.splits)+

lemma units_mark_delivered:
  "units (mark_delivered item) =
     modify_first (\<lambda>si. \<not> isDelivered si) (\<lambda>si. si\<lparr>isDelivered := True\<rparr>) (units item)"
  by (simp add: units_def mark_delivered_def split: option.splits)

lemma available_mark_delivered: "available (mark_delivered item) = tl (available item)"
  by (simp add: available_def units_mark_delivered filter_modify_first_leave)

lemma length_units_mark_delivered [simp]:
  "length (units (mark_delivered item)) = length (units item)"
  by (simp add: units_mark_delivered)

lemma map_content_mark_delivered [simp]:
  "map unit_content (units (mark_delivered item)) = map unit_content (units item)"
  by (simp add: units_mark_delivered map_modify_first_keep)

lemma length_delivered_mark_delivered:
  "available item \<noteq> [] \<Longrightarrow>
   length (delivered (mark_delivered item)) = Suc (length (delivered item))"
proof -
  assume "available item \<noteq> []"
  then obtain a as where "available item = a # as"
    by (cases "available item") auto
  then have "find (\<lambda>si. \<not> isDelivered si) (units item) = Some a"
    by (simp add: available_def find_filter_hd)
  from length_filter_modify_first_enter [OF _ this, of "\<lambda>si. si\<lparr>isDelivered := True\<rparr>"]
  show ?thesis by (simp add: delivered_def units_mark_delivered)
qed

lemma stock_consistent_mark_delivered:
  "available item \<noteq> [] \<Longrightarrow> stock_consistent item \<Longrightarrow> stock_consistent (mark_delivered item)"
  by (simp add: stock_consistent_def length_delivered_mark_delivered)
     (simp add: mark_delivered_def)

lemma mark_delivered_fields [simp]:
  "item_id (mark_delivered item) = item_id item"
  "item_price (mark_delivered item) = item_price item"
  "item_name (mark_delivered item) = item_name item"
  "item_type (mark_delivered item) = item_type item"
  "deliveredCount (mark_delivered item) = deliveredCount item + 1"
  by (simp_all add: mark_delivered_def)

section \<open>The branches of \<open>processPurchase\<close>\<close>

lemma getPurchases_addPurchase [simp]:
  "getPurchases (addPurchase purchase ls) = getPurchases ls @ [purchase]"
  by (simp add: getPurchases_def addPurchase_def Let_def)

lemma getInitialState_addPurchase [simp]:
  "getInitialState (addPurchase purchase ls) =
     (getInitialState ls)\<lparr>purchases := purchases (getInitialState ls) @ [purchase]\<rparr>"
  by (simp add: addPurchase_def Let_def)

lemma processPurchase_not_found:
  "find_user userId (getUsers ls) = None \<or> find_item itemId (getItems ls) = None \<Longrightarrow>
   processPurchase userId itemId newId now ls = (Inl UserOrItemNotFound, ls)"
  by (auto simp: processPurchase_def getUsers_def getItems_def Let_def split: option.splits)

lemma processPurchase_insufficient:
  "find_user userId (getUsers ls) = Some u \<Longrightarrow> find_item itemId (getItems ls) = Some i \<Longrightarrow>
   credits u < item_price i \<Longrightarrow>
   processPurchase userId itemId newId now ls = (Inl InsufficientCredits, ls)"
  by (simp add: processPurchase_def getUsers_def getItems_def Let_def)

lemma processPurchase_out_of_stock:
  "find_user userId (getUsers ls) = Some u \<Longrightarrow> find_item itemId (getItems ls) = Some i \<Longrightarrow>
   item_price i \<le> credits u \<Longrightarrow> fulfil i = None \<Longrightarrow>
   processPurchase userId itemId newId now ls = (Inl OutOfStock, ls)"
  by (simp add: processPurchase_def getUsers_def getItems_def Let_def)

lemma processPurchase_success:
  "find_user userId (getUsers ls) = Some u \<Longrightarrow> find_item itemId (getItems ls) = Some i \<Longrightarrow>
   item_price i \<le> credits u \<Longrightarrow> fulfil i = Some (c, i') \<Longrightarrow>
   processPurchase userId itemId newId now ls =
     (Inr c, saveState ((getInitialState ls)
        \<lparr>items := modify_first (\<lambda>x. item_id x = itemId) (\<lambda>_. i') (getItems ls),
         users := credit_user userId (- item_price i) (getUsers ls),
         purchases := getPurchases ls @
           [\<lparr>purchase_id = newId, purchase_userId = userId, purchase_itemId = itemId,
             itemName = item_name i, contentDelivered = c, purchase_timestamp = now,
             purchase_price = item_price i\<rparr>]\<rparr>) ls)"
  by (simp add: processPurchase_def getUsers_def getItems_def getPurchases_def Let_def fulfil_keeps)

lemmas processPurchase_failures =
  processPurchase_not_found processPurchase_insufficient processPurchase_out_of_stock

lemma processPurchase_cases:
  obtains (not_found) "find_user userId (getUsers ls) = None \<or> find_item itemId (getItems ls) = None"
    "processPurchase userId itemId newId now ls = (Inl UserOrItemNotFound, ls)"
  | (insufficient) u i where "find_user userId (getUsers ls) = Some u"
      "find_item itemId (getItems ls) = Some i" "credits u < item_price i"
      "processPurchase userId itemId newId now ls = (Inl InsufficientCredits, ls)"
  | (out_of_stock) u i where "find_user userId (getUsers ls) = Some u"
      "find_item itemId (getItems ls) = Some i" "item_price i \<le> credits u"
      "item_type i \<noteq> INSTANT" "available i = []"
      "processPurchase userId itemId newId now ls = (Inl OutOfStock, ls)"
  | (success) u i c i' where "find_user userId (getUsers ls) = Some u"
      "find_item itemId (getItems ls) = Some i" "item_price i \<le> credits u"
      "fulfil i = Some (c, i')"
      "processPurchase userId itemId newId now ls =
        (Inr c, saveState ((getInitialState ls)
          \<lparr>items := modify_first (\<lambda>x. item_id x = itemId) (\<lambda>_. i') (getItems ls),
           users := credit_user userId (- item_price i) (getUsers ls),
           purchases := getPurchases ls @
             [\<lparr>purchase_id = newId, purchase_userId = userId, purchase_itemId = itemId,
               itemName = item_name i, contentDelivered = c, purchase_timestamp = now,
               purchase_price = item_price i\<rparr>]\<rparr>) ls)"
proof (cases "find_user userId (getUsers ls)")
  case None
  then show ?thesis using not_found processPurchase_not_found by blast
next
  case u: (Some u)
  show ?thesis
  proof (cases "find_item itemId (getItems ls)")
    case None
    then show ?thesis using not_found processPurchase_not_found by blast
  next
    case i: (Some i)
    show ?thesis
    proof (cases "credits u < item_price i")
      case True
      with u i show ?thesis using insufficient processPurchase_insufficient by blast
    next
      case False
      then have le: "item_price i \<le> credits u" by simp
      show ?thesis
      proof (cases "fulfil i")
        case None
        with u i le show ?thesis
          using out_of_stock processPurchase_out_of_stock fulfil_None_iff by blast
      next
        case (Some ci)
        obtain c i' where "ci = (c, i')" by (cases ci)
        with Some u i le show ?thesis
          using success [of u i c i'] processPurchase_success by blast
      qed
    qed
  qed
qed

lemma fulfil_stock_consistent:
  "fulfil i = Some (c, i') \<Longrightarrow> stock_consistent i \<Longrightarrow> stock_consistent i'"
  by (cases "item_type i = INSTANT")
     (auto simp: fulfil_instant fulfil_sequential stock_consistent_mark_delivered
           split: list.splits)

lemma isDelivered_mark_delivered:
  "n < length (units i) \<Longrightarrow> isDelivered (units i ! n) \<Longrightarrow>
   isDelivered (units (mark_delivered i) ! n)"
  by (simp add: units_mark_delivered nth_modify_first)

lemma fulfil_monotone:
  assumes "fulfil i = Some (c, i')"
  shows "map unit_content (units i') = map unit_content (units i)"
    and "n < length (units i) \<Longrightarrow> isDelivered (units i ! n) \<Longrightarrow> isDelivered (units i' ! n)"
  using assms
  by (cases "item_type i = INSTANT";
      auto simp: fulfil_instant fulfil_sequential isDelivered_mark_delivered split: list.splits)+

lemma sequential_purchase:
  assumes "find_user userId (getUsers ls) = Some u"
    and "find_item itemId (getItems ls) = Some i"
    and "item_type i \<noteq> INSTANT"
    and "item_price i \<le> credits u"
    and "available i = a # rest"
  shows "fst (processPurchase userId itemId newId now ls) = Inr (unit_content a) \<and>
    find_item itemId (getItems (snd (processPurchase userId itemId newId now ls))) =
      Some (mark_delivered i) \<and>
    available (mark_delivered i) = rest \<and>
    deliveredCount (mark_delivered i) = deliveredCount i + 1 \<and>
    (\<forall>k. k \<noteq> itemId \<longrightarrow>
       find_item k (getItems (snd (processPurchase userId itemId newId now ls))) =
       find_item k (getItems ls)) \<and>
    find_user userId (getUsers (snd (processPurchase userId itemId newId now ls))) =
      Some (u\<lparr>credits := credits u - item_price i\<rparr>) \<and>
    getPurchases (snd (processPurchase userId itemId newId now ls)) =
      getPurchases ls @
        [\<lparr>purchase_id = newId, purchase_userId = userId, purchase_itemId = itemId,
          itemName = item_name i, contentDelivered = unit_content a,
          purchase_timestamp = now, purchase_price = item_price i\<rparr>]"
proof -
  from assms(3,5) have f: "fulfil i = Some (unit_content a, mark_delivered i)"
    by (simp add: fulfil_sequential)
  have "item_id (mark_delivered i) = itemId"
    using find_item_Some [OF assms(2)] by simp
  then show ?thesis
    using assms(1,2,5)
    by (simp add: processPurchase_success [OF assms(1,2,4) f] find_item_replace
          available_mark_delivered getUsers_def getItems_def getPurchases_def
          find_user_credit_user_same)
qed

lemma revenue_append [simp]: "revenue (ps @ qs) = revenue ps + revenue qs"
  by (simp add: revenue_def)

lemma revenue_single [simp]: "revenue [p] = purchase_price p"
  by (simp add: revenue_def)

lemma purchase_all_append:
  "purchase_all userId itemId (env @ env') ls =
     (fst (purchase_all userId itemId env ls) @
        fst (purchase_all userId itemId env' (snd (purchase_all userId itemId env ls))),
      snd (purchase_all userId itemId env' (snd (purchase_all userId itemId env ls))))"
  by (induction env arbitrary: ls) (auto simp: Let_def split: prod.splits)

lemma purchase_all_in_stock:
  assumes "find_user userId (getUsers ls) = Some u"
    and "find_item itemId (getItems ls) = Some i"
    and "item_type i \<noteq> INSTANT"
    and "length env \<le> length (available i)"
    and "0 \<le> item_price i"
    and "int (length env) * item_price i \<le> credits u"
  shows "fst (purchase_all userId itemId env ls) =
           map (\<lambda>a. Inr (unit_content a)) (take (length env) (available i)) \<and>
         (\<exists>u' i'. find_user userId (getUsers (snd (purchase_all userId itemId env ls))) = Some u' \<and>
            credits u' = credits u - int (length env) * item_price i \<and>
            find_item itemId (getItems (snd (purchase_all userId itemId env ls))) = Some i' \<and>
            available i' = drop (length env) (available i) \<and>
            item_type i' = item_type i \<and> item_price i' = item_price i)"
  using assms
proof (induction env arbitrary: ls u i)
  case Nil
  then show ?case by simp
next
  case (Cons e env)
  obtain newId now where e: "e = (newId, now)" by (cases e)
  from Cons.prems(4) obtain a rest where av: "available i = a # rest"
    by (cases "available i") auto
  from Cons.prems(5) have "0 \<le> int (length env) * item_price i"
    by simp
  with Cons.prems(6) have le: "item_price i \<le> credits u"
    by (simp add: distrib_right)
  let ?ls' = "snd (processPurchase userId itemId newId now ls)"
  note step = sequential_purchase [OF Cons.prems(1,2,3) le av, of newId now]
  have "length env \<le> length (available (mark_delivered i))"
    using Cons.prems(4) av by (simp add: available_mark_delivered)
  moreover have "int (length env) * item_price (mark_delivered i) \<le>
      credits (u\<lparr>credits := credits u - item_price i\<rparr>)"
    using Cons.prems(6) by (simp add: distrib_right)
  ultimately have IH: "fst (purchase_all userId itemId env ?ls') =
      map (\<lambda>a. Inr (unit_content a)) (take (length env) (available (mark_delivered i))) \<and>
      (\<exists>u' i'. find_user userId (getUsers (snd (purchase_all userId itemId env ?ls'))) = Some u' \<and>
         credits u' = credits (u\<lparr>credits := credits u - item_price i\<rparr>)
                        - int (length env) * item_price (mark_delivered i) \<and>
         find_item itemId (getItems (snd (purchase_all userId itemId env ?ls'))) = Some i' \<and>
         available i' = drop (length env) (available (mark_delivered i)) \<and>
         item_type i' = item_type (mark_delivered i) \<and>
         item_price i' = item_price (mark_delivered i))"
    using Cons.IH [of ?ls' "u\<lparr>credits := credits u - item_price i\<rparr>" "mark_delivered i"]
      step Cons.prems(3,5) by simp
  then show ?case
    using step av e
    by (auto simp: Let_def available_mark_delivered distrib_right split: prod.splits)
qed

section \<open>Example data\<close>

abbreviation example_user :: User where
  "example_user \<equiv> \<lparr>user_id = ''U'', role = USER, credits = 100\<rparr>"

abbreviation example_instant :: Item where
  "example_instant \<equiv>
     \<lparr>item_id = ''I'', item_name = ''Key'', item_price = 30, item_type = INSTANT,
      item_content = Some ''CODE123'', sequentialItems = None, deliveredCount = 0\<rparr>"

abbreviation example_sequential :: Item where
  "example_sequential \<equiv>
     \<lparr>item_id = ''S'', item_name = ''Voucher'', item_price = 40, item_type = SEQUENTIAL,
      item_content = None,
      sequentialItems = Some [\<lparr>unit_content = ''A1'', isDelivered = True\<rparr>,
                              \<lparr>unit_content = ''B2'', isDelivered = False\<rparr>],
      deliveredCount = 1\<rparr>"

abbreviation example_shop :: localStorage where
  "example_shop \<equiv>
     [STORAGE_KEY \<mapsto> \<lparr>users = [example_user], items = [example_instant, example_sequential],
        purchases = [], transactions = [], redeemCodes = [], tickets = []\<rparr>]"

lemma example_shop_simps [simp]:
  "getUsers example_shop = [example_user]"
  "getItems example_shop = [example_instant, example_sequential]"
  "getPurchases example_shop = []"
  by (simp_all add: getUsers_def getItems_def getPurchases_def)

section \<open>Properties\<close>

text \<open>
  C1: the outcome of \<open>processPurchase\<close> as a decision table, in the order of the code's
  checks: a missing user or item is reported first, then insufficient credits (credits below
  the price), then, for an item that is not of type INSTANT, an empty stock; otherwise the
  call succeeds with the content of an INSTANT item (the empty string if it has none) or with
  the content of the first undelivered unit.
\<close>

theorem processPurchase_outcome:
  "fst (processPurchase userId itemId newId now ls) =
     (case (find_user userId (getUsers ls), find_item itemId (getItems ls)) of
        (Some u, Some i) \<Rightarrow>
          if credits u < item_price i then Inl InsufficientCredits
          else if item_type i = INSTANT then Inr (instant_content i)
          else (case available i of [] \<Rightarrow> Inl OutOfStock | a # _ \<Rightarrow> Inr (unit_content a))
      | _ \<Rightarrow> Inl UserOrItemNotFound)"
proof (cases rule: processPurchase_cases [where userId = userId and itemId = itemId
      and ls = ls and newId = newId and now = now])
  case not_found
  then show ?thesis by (auto split: option.splits)
next
  case (insufficient u i)
  then show ?thesis by simp
next
  case (out_of_stock u i)
  then show ?thesis by simp
next
  case (success u i c i')
  then show ?thesis
    by (cases "item_type i = INSTANT")
       (auto simp: fulfil_instant fulfil_sequential split: list.splits)
qed

text \<open>
  C2: a purchase that fails has no effect: whatever the error, \<open>processPurchase\<close> returns
  the storage it was given, so credits, stock and the purchase log are as before and nothing
  is written.
\<close>

theorem processPurchase_failure_unchanged:
  assumes "fst (processPurchase userId itemId newId now ls) = Inl e"
  shows "snd (processPurchase userId itemId newId now ls) = ls"
  using assms
  by (cases rule: processPurchase_cases [where userId = userId and itemId = itemId
        and ls = ls and newId = newId and now = now]) simp_all

theorem processPurchase_failure_unchanged_witness:
  "fst (processPurchase ''U'' ''I'' ''p1'' 7
          (updateUserCredits ''U'' (- 80) example_shop)) = Inl InsufficientCredits \<and>
   snd (processPurchase ''U'' ''I'' ''p1'' 7
          (updateUserCredits ''U'' (- 80) example_shop)) =
     updateUserCredits ''U'' (- 80) example_shop"
  using processPurchase_failure_unchanged
    [of "''U''" "''I''" "''p1''" 7 "updateUserCredits ''U'' (- 80) example_shop"
        InsufficientCredits]
  by (simp add: processPurchase_outcome getUsers_def getItems_def)

text \<open>
  C3: a successful purchase of an INSTANT item returns the item's content, subtracts the
  price from the credits of the buyer (the first user with the identifier), leaves the items
  as they are and appends one record to the purchase log, with the identifier and timestamp
  drawn from the environment and the item's name and price as they are at that moment.
\<close>

theorem processPurchase_instant:
  assumes "find_user userId (getUsers ls) = Some u"
    and "find_item itemId (getItems ls) = Some i"
    and "item_type i = INSTANT"
    and "item_price i \<le> credits u"
  shows "fst (processPurchase userId itemId newId now ls) = Inr (instant_content i) \<and>
    find_user userId (getUsers (snd (processPurchase userId itemId newId now ls))) =
      Some (u\<lparr>credits := credits u - item_price i\<rparr>) \<and>
    getItems (snd (processPurchase userId itemId newId now ls)) = getItems ls \<and>
    getPurchases (snd (processPurchase userId itemId newId now ls)) =
      getPurchases ls @
        [\<lparr>purchase_id = newId, purchase_userId = userId, purchase_itemId = itemId,
          itemName = item_name i, contentDelivered = instant_content i,
          purchase_timestamp = now, purchase_price = item_price i\<rparr>]"
proof -
  from assms(2) have "find (\<lambda>x. item_id x = itemId) (getItems ls) = Some i"
    by (simp add: find_item_def)
  then have "modify_first (\<lambda>x. item_id x = itemId) (\<lambda>_. i) (getItems ls) = getItems ls"
    by (rule modify_first_same)
  with assms show ?thesis
    by (simp add: processPurchase_success [OF assms(1,2,4) fulfil_instant [OF assms(3)]]
          getUsers_def getItems_def getPurchases_def find_user_credit_user_same)
qed

theorem processPurchase_instant_witness:
  "fst (processPurchase ''U'' ''I'' ''p1'' 7 example_shop) = Inr ''CODE123'' \<and>
   find_user ''U'' (getUsers (snd (processPurchase ''U'' ''I'' ''p1'' 7 example_shop))) =
     Some \<lparr>user_id = ''U'', role = USER, credits = 70\<rparr> \<and>
   getPurchases (snd (processPurchase ''U'' ''I'' ''p1'' 7 example_shop)) =
     [\<lparr>purchase_id = ''p1'', purchase_userId = ''U'', purchase_itemId = ''I'',
       itemName = ''Key'', contentDelivered = ''CODE123'', purchase_timestamp = 7,
       purchase_price = 30\<rparr>]"
  using processPurchase_instant
    [of "''U''" example_shop example_user "''I''" example_instant "''p1''" 7]
  by (simp add: instant_content_def)

text \<open>
  C4: a successful purchase of a stocked item (any type other than INSTANT) hands out the
  first undelivered unit in list order: its content is returned and logged, the item found
  under the identifier afterwards is the old one with exactly that unit marked delivered
  and \<open>deliveredCount\<close> one higher, so the remaining stock is the old stock without its
  head; the buyer is debited the price and every other item is found unchanged.
\<close>

theorem processPurchase_sequential:
  assumes "find_user userId (getUsers ls) = Some u"
    and "find_item itemId (getItems ls) = Some i"
    and "item_type i \<noteq> INSTANT"
    and "item_price i \<le> credits u"
    and "available i = a # rest"
  shows "fst (processPurchase userId itemId newId now ls) = Inr (unit_content a) \<and>
    find_item itemId (getItems (snd (processPurchase userId itemId newId now ls))) =
      Some (mark_delivered i) \<and>
    available (mark_delivered i) = rest \<and>
    deliveredCount (mark_delivered i) = deliveredCount i + 1 \<and>
    (\<forall>k. k \<noteq> itemId \<longrightarrow>
       find_item k (getItems (snd (processPurchase userId itemId newId now ls))) =
       find_item k (getItems ls)) \<and>
    find_user userId (getUsers (snd (processPurchase userId itemId newId now ls))) =
      Some (u\<lparr>credits := credits u - item_price i\<rparr>) \<and>
    getPurchases (snd (processPurchase userId itemId newId now ls)) =
      getPurchases ls @
        [\<lparr>purchase_id = newId, purchase_userId = userId, purchase_itemId = itemId,
          itemName = item_name i, contentDelivered = unit_content a,
          purchase_timestamp = now, purchase_price = item_price i\<rparr>]"
  using assms by (rule sequential_purchase)

theorem processPurchase_sequential_witness:
  "fst (processPurchase ''U'' ''S'' ''p2'' 9 example_shop) = Inr ''B2'' \<and>
   find_item ''S'' (getItems (snd (processPurchase ''U'' ''S'' ''p2'' 9 example_shop))) =
     Some (example_sequential
       \<lparr>sequentialItems := Some [\<lparr>unit_content = ''A1'', isDelivered = True\<rparr>,
                                 \<lparr>unit_content = ''B2'', isDelivered = True\<rparr>],
        deliveredCount := 2\<rparr>) \<and>
   find_user ''U'' (getUsers (snd (processPurchase ''U'' ''S'' ''p2'' 9 example_shop))) =
     Some \<lparr>user_id = ''U'', role = USER, credits = 60\<rparr>"
  using processPurchase_sequential
    [of "''U''" example_shop example_user "''S''" example_sequential
        "\<lparr>unit_content = ''B2'', isDelivered = False\<rparr>" "[]" "''p2''" 9]
  by (simp add: available_def units_def mark_delivered_def)

text \<open>
  C6: after a successful purchase the buyer's credits are not negative, whatever they were
  before and whatever the sign of the price: the credit check is the only guard needed.
\<close>

theorem processPurchase_credits_nonneg:
  assumes "fst (processPurchase userId itemId newId now ls) = Inr c"
  shows "\<exists>u'. find_user userId (getUsers (snd (processPurchase userId itemId newId now ls))) = Some u'
           \<and> 0 \<le> credits u'"
  using assms
proof (cases rule: processPurchase_cases [where userId = userId and itemId = itemId
      and ls = ls and newId = newId and now = now])
  case (success u i c i')
  then show ?thesis
    by (simp add: getUsers_def find_user_credit_user_same)
qed simp_all

theorem processPurchase_credits_nonneg_witness:
  "fst (processPurchase ''U'' ''I'' ''p1'' 7 example_shop) = Inr ''CODE123'' \<and>
   (\<exists>u'. find_user ''U'' (getUsers (snd (processPurchase ''U'' ''I'' ''p1'' 7 example_shop))) = Some u'
      \<and> 0 \<le> credits u')"
  using processPurchase_credits_nonneg [of "''U''" "''I''" "''p1''" 7 example_shop "''CODE123''"]
  by (simp add: processPurchase_outcome instant_content_def)

text \<open>
  C5: a stocked item with \<open>N\<close> undelivered units sells exactly \<open>N\<close> times. If the price
  is not negative, a buyer who can pay for \<open>N + 1\<close> units and calls \<open>processPurchase\<close>
  \<open>N + 1\<close> times in a row receives the \<open>N\<close> undelivered units, each once and in list
  order, and the last call fails with "Out of stock".
\<close>

theorem stock_exhaustion:
  assumes "find_user userId (getUsers ls) = Some u"
    and "find_item itemId (getItems ls) = Some i"
    and "item_type i \<noteq> INSTANT"
    and "length env = length (available i)"
    and "0 \<le> item_price i"
    and "(int (length env) + 1) * item_price i \<le> credits u"
  shows "fst (purchase_all userId itemId (env @ [e]) ls) =
           map (\<lambda>a. Inr (unit_content a)) (available i) @ [Inl OutOfStock]"
proof -
  obtain newId now where e: "e = (newId, now)" by (cases e)
  let ?ls' = "snd (purchase_all userId itemId env ls)"
  from assms(4,5,6) have "length env \<le> length (available i)"
    "int (length env) * item_price i \<le> credits u"
    by (simp_all add: distrib_right)
  from purchase_all_in_stock [OF assms(1,2,3) this(1) assms(5) this(2)] assms(4)
  obtain u' i' where rs: "fst (purchase_all userId itemId env ls) =
        map (\<lambda>a. Inr (unit_content a)) (available i)"
    and u': "find_user userId (getUsers ?ls') = Some u'"
      "credits u' = credits u - int (length env) * item_price i"
    and i': "find_item itemId (getItems ?ls') = Some i'" "available i' = []"
      "item_type i' = item_type i" "item_price i' = item_price i"
    by auto
  from u'(2) i'(4) assms(6) have "item_price i' \<le> credits u'"
    by (simp add: distrib_right)
  moreover from i'(2,3) assms(3) have "fulfil i' = None"
    by (simp add: fulfil_None_iff)
  ultimately have "processPurchase userId itemId newId now ?ls' = (Inl OutOfStock, ?ls')"
    using u'(1) i'(1) by (simp add: processPurchase_out_of_stock)
  with rs e show ?thesis
    by (simp add: purchase_all_append)
qed

theorem stock_exhaustion_witness:
  "fst (purchase_all ''U'' ''S'' [(''p1'', 1), (''p2'', 2)] example_shop) =
     [Inr ''B2'', Inl OutOfStock]"
  using stock_exhaustion
    [of "''U''" example_shop example_user "''S''" example_sequential "[(''p1'', 1)]"
        "(''p2'', 2)"]
  by (simp add: available_def units_def)

text \<open>
  C35: the credit check comes before the stock check, so a buyer whose credits are used up
  by the last unit is told "Insufficient credits", not "Out of stock", when asking for one
  more: with a positive price and credits for exactly the \<open>N\<close> undelivered units, the
  \<open>N\<close> purchases succeed and the next call fails with the credit error.
\<close>

theorem stock_exhaustion_credit_error:
  assumes "find_user userId (getUsers ls) = Some u"
    and "find_item itemId (getItems ls) = Some i"
    and "item_type i \<noteq> INSTANT"
    and "length env = length (available i)"
    and "0 < item_price i"
    and "credits u = int (length env) * item_price i"
  shows "fst (purchase_all userId itemId (env @ [e]) ls) =
           map (\<lambda>a. Inr (unit_content a)) (available i) @ [Inl InsufficientCredits]"
proof -
  obtain newId now where e: "e = (newId, now)" by (cases e)
  let ?ls' = "snd (purchase_all userId itemId env ls)"
  from assms(4,5,6) have "length env \<le> length (available i)" "0 \<le> item_price i"
    "int (length env) * item_price i \<le> credits u"
    by simp_all
  from purchase_all_in_stock [OF assms(1,2,3) this] assms(4,6)
  obtain u' i' where rs: "fst (purchase_all userId itemId env ls) =
        map (\<lambda>a. Inr (unit_content a)) (available i)"
    and u': "find_user userId (getUsers ?ls') = Some u'" "credits u' = 0"
    and i': "find_item itemId (getItems ?ls') = Some i'" "item_price i' = item_price i"
    by auto
  from u'(2) i'(2) assms(5) have "credits u' < item_price i'" by simp
  then have "processPurchase userId itemId newId now ?ls' = (Inl InsufficientCredits, ?ls')"
    using u'(1) i'(1) by (simp add: processPurchase_insufficient)
  with rs e show ?thesis
    by (simp add: purchase_all_append)
qed

theorem stock_exhaustion_credit_error_witness:
  "fst (purchase_all ''U'' ''S'' [(''p1'', 1), (''p2'', 2)]
          (updateUserCredits ''U'' (- 60) example_shop)) =
     [Inr ''B2'', Inl InsufficientCredits]"
  using stock_exhaustion_credit_error
    [of "''U''" "updateUserCredits ''U'' (- 60) example_shop"
        "\<lparr>user_id = ''U'', role = USER, credits = 40\<rparr>" "''S''" example_sequential
        "[(''p1'', 1)]" "(''p2'', 2)"]
  by (simp add: available_def units_def getUsers_def getItems_def)

text \<open>
  C7: \<open>processPurchase\<close> moves credits into the purchase log and nowhere else: the sum of
  all users' credits plus the sum of the logged prices is the same before and after the
  call, whether it succeeds or fails.
\<close>

theorem processPurchase_conservation:
  "total_credits (getUsers (snd (processPurchase userId itemId newId now ls))) +
     revenue (getPurchases (snd (processPurchase userId itemId newId now ls))) =
   total_credits (getUsers ls) + revenue (getPurchases ls)"
proof (cases rule: processPurchase_cases [where userId = userId and itemId = itemId
      and ls = ls and newId = newId and now = now])
  case (success u i c i')
  then show ?thesis
    by (simp add: getUsers_def getPurchases_def total_credits_credit_user)
qed simp_all

text \<open>
  C23: \<open>processPurchase\<close> keeps the delivery counter in step with the stock: if for every
  item \<open>deliveredCount\<close> equals the number of units marked delivered, the same holds for
  every item after the call.
\<close>

theorem processPurchase_stock_consistent:
  assumes "\<forall>i \<in> set (getItems ls). stock_consistent i"
  shows "\<forall>i \<in> set (getItems (snd (processPurchase userId itemId newId now ls))). stock_consistent i"
proof (cases rule: processPurchase_cases [where userId = userId and itemId = itemId
      and ls = ls and newId = newId and now = now])
  case (success u i c i')
  from success(2) have "find (\<lambda>x. item_id x = itemId) (getItems ls) = Some i"
    by (simp add: find_item_def)
  from set_modify_first [OF this, of "\<lambda>_. i'"]
  have "set (getItems (snd (processPurchase userId itemId newId now ls))) \<subseteq>
      insert i' (set (getItems ls))"
    by (simp add: success(5) getItems_def)
  moreover have "stock_consistent i'"
    using success(2,4) assms find_item_Some fulfil_stock_consistent by blast
  ultimately show ?thesis using assms by auto
qed (simp_all add: assms)

theorem processPurchase_stock_consistent_witness:
  "list_all stock_consistent (getItems example_shop) \<and>
   list_all stock_consistent
     (getItems (snd (processPurchase ''U'' ''S'' ''p2'' 9 example_shop)))"
  using processPurchase_stock_consistent [of example_shop "''U''" "''S''" "''p2''" 9]
  by (simp add: list_all_iff stock_consistent_def delivered_def units_def)

text \<open>
  C24: delivery is a latch. Whatever the outcome of \<open>processPurchase\<close>, every item that could
  be found before is found afterwards with the same units in the same order, and a unit that
  was marked delivered is still marked delivered.
\<close>

theorem processPurchase_delivery_latch:
  assumes "find_item k (getItems ls) = Some i"
  shows "\<exists>i'. find_item k (getItems (snd (processPurchase userId itemId newId now ls))) = Some i' \<and>
           map unit_content (units i') = map unit_content (units i) \<and>
           (\<forall>n < length (units i). isDelivered (units i ! n) \<longrightarrow> isDelivered (units i' ! n))"
proof (cases rule: processPurchase_cases [where userId = userId and itemId = itemId
      and ls = ls and newId = newId and now = now])
  case (success u j c j')
  have id: "item_id j' = itemId"
    using find_item_Some [OF success(2)] fulfil_keeps(1) [OF success(4)] by simp
  show ?thesis
  proof (cases "k = itemId")
    case True
    with assms success(2) have "j = i" by simp
    with True success id show ?thesis
      using fulfil_monotone [OF success(4)]
      by (simp add: getItems_def find_item_replace)
  next
    case False
    with assms success id show ?thesis
      by (simp add: getItems_def find_item_replace)
  qed
qed (simp_all add: assms)

theorem processPurchase_delivery_latch_witness:
  "\<exists>i'. find_item ''S'' (getItems (snd (processPurchase ''U'' ''S'' ''p2'' 9 example_shop))) = Some i' \<and>
     map unit_content (units i') = [''A1'', ''B2''] \<and> isDelivered (units i' ! 0)"
  using processPurchase_delivery_latch
    [of "''S''" example_shop example_sequential "''U''" "''S''" "''p2''" 9]
  by (auto simp: units_def)

text \<open>
  C22: a purchase concerns the buyer, the item and the log only. Whatever the outcome of
  \<open>processPurchase\<close>, every user other than the buyer is found unchanged, the users keep
  their order and identifiers, and transactions, redeem codes and tickets are as before.
\<close>

theorem processPurchase_frame:
  assumes "uid \<noteq> userId"
  shows "find_user uid (getUsers (snd (processPurchase userId itemId newId now ls))) =
           find_user uid (getUsers ls) \<and>
         map user_id (getUsers (snd (processPurchase userId itemId newId now ls))) =
           map user_id (getUsers ls) \<and>
         transactions (getInitialState (snd (processPurchase userId itemId newId now ls))) =
           transactions (getInitialState ls) \<and>
         redeemCodes (getInitialState (snd (processPurchase userId itemId newId now ls))) =
           redeemCodes (getInitialState ls) \<and>
         tickets (getInitialState (snd (processPurchase userId itemId newId now ls))) =
           tickets (getInitialState ls)"
  using assms
  by (cases rule: processPurchase_cases [where userId = userId and itemId = itemId
        and ls = ls and newId = newId and now = now])
     (simp_all add: getUsers_def find_user_credit_user_other)

theorem processPurchase_frame_witness:
  "find_user ''U'' (getUsers (snd (processPurchase ''V'' ''I'' ''p1'' 7
       (addUser \<lparr>user_id = ''V'', role = USER, credits = 30\<rparr> example_shop)))) =
     Some example_user"
  using processPurchase_frame [of "''U''" "''V''" "''I''" "''p1''" 7
      "addUser \<lparr>user_id = ''V'', role = USER, credits = 30\<rparr> example_shop"]
  by (simp add: getUsers_def)

end
