(* ===== verification/Transactions.thy ===== *)
theory Transactions
  imports Users
begin

text \<open>
  The top-up transactions of \<^verbatim>\<open>DB\<close> (\<^verbatim>\<open>src/db.ts\<close>, lines 123 to 141):
  \<open>getTransactions\<close>, \<open>addTransaction\<close> and \<open>updateTransactionStatus\<close>.

  \<open>updateTransactionStatus\<close> writes the new status into the first transaction with the
  identifier and, when the new status is APPROVED, adds the transaction's amount to the
  credits of its owner. The code looks at the new status only, never at the old one; the
  theorems state what follows from that, including that approval can be repeated. The
  document is saved on every path.
\<close>

section \<open>Operations\<close>

definition find_transaction :: "string \<Rightarrow> Transaction list \<Rightarrow> Transaction option" where
  "find_transaction txId ts = find (\<lambda>t. tx_id t = txId) ts"

definition set_status :: "string \<Rightarrow> TransactionStatus \<Rightarrow> Transaction list \<Rightarrow> Transaction list" where
  "set_status txId status ts =
     modify_first (\<lambda>t. tx_id t = txId) (\<lambda>t. t\<lparr>tx_status := status\<rparr>) ts"

definition getTransactions :: "localStorage \<Rightarrow> Transaction list" where
  "getTransactions ls = transactions (getInitialState ls)"

definition addTransaction :: "Transaction \<Rightarrow> localStorage \<Rightarrow> localStorage" where
  "addTransaction transaction ls =
     (let state = getInitialState ls;
          state = state\<lparr>transactions := transactions state @ [transaction]\<rparr>
      in saveState state ls)"

definition updateTransactionStatus ::
  "string \<Rightarrow> TransactionStatus \<Rightarrow> localStorage \<Rightarrow> localStorage"
where
  "updateTransactionStatus txId status ls =
     (let state = getInitialState ls;
          state =
            (case find_transaction txId (transactions state) of
               Some tx \<Rightarrow>
                 let state = state\<lparr>transactions := set_status txId status (transactions state)\<rparr>
                 in if status = APPROVED
                    then (case find_user (tx_userId tx) (users state) of
                            Some user \<Rightarrow>
                              state\<lparr>users := credit_user (tx_userId tx) (tx_amount tx) (users state)\<rparr>
                          | None \<Rightarrow> state)
                    else state
             | None \<Rightarrow> state)
      in saveState state ls)"

lemmas [db_defs] = getTransactions_def addTransaction_def updateTransactionStatus_def

section \<open>The credit an update pays out\<close>

text \<open>
  The account and the amount that \<open>updateTransactionStatus\<close> credits: those of the first
  transaction with the identifier when the new status is APPROVED, none otherwise.
\<close>

definition payout :: "string \<Rightarrow> TransactionStatus \<Rightarrow> Transaction list \<Rightarrow> (string \<times> int) option" where
  "payout txId status ts =
     (case find_transaction txId ts of
        Some tx \<Rightarrow> if status = APPROVED then Some (tx_userId tx, tx_amount tx) else None
      | None \<Rightarrow> None)"

section \<open>Lookup and status update\<close>

lemma find_transaction_Nil [simp]: "find_transaction k [] = None"
  by (simp add: find_transaction_def)

lemma find_transaction_Cons [simp]:
  "find_transaction k (t # ts) = (if tx_id t = k then Some t else find_transaction k ts)"
  by (simp add: find_transaction_def)

lemma set_status_Nil [simp]: "set_status k st [] = []"
  by (simp add: set_status_def)

lemma set_status_Cons [simp]:
  "set_status k st (t # ts) =
     (if tx_id t = k then t\<lparr>tx_status := st\<rparr> # ts else t # set_status k st ts)"
  by (simp add: set_status_def)

lemma length_set_status [simp]: "length (set_status k st ts) = length ts"
  by (simp add: set_status_def)

lemma set_status_absent: "find_transaction k ts = None \<Longrightarrow> set_status k st ts = ts"
  by (simp add: set_status_def find_transaction_def modify_first_absent)

lemma find_transaction_set_status:
  "find_transaction k' (set_status k st ts) =
     (if k' = k then map_option (\<lambda>t. t\<lparr>tx_status := st\<rparr>) (find_transaction k ts)
      else find_transaction k' ts)"
  by (induction ts) auto

lemma map_fields_set_status [simp]:
  "map tx_id (set_status k st ts) = map tx_id ts"
  "map tx_userId (set_status k st ts) = map tx_userId ts"
  "map tx_amount (set_status k st ts) = map tx_amount ts"
  by (simp_all add: set_status_def map_modify_first_keep)

lemma payout_Some:
  "payout k st ts = Some (uid, a) \<Longrightarrow>
   st = APPROVED \<and> (\<exists>tx \<in> set ts. tx_id tx = k \<and> tx_userId tx = uid \<and> tx_amount tx = a)"
  using find_Some_set [of "\<lambda>t. tx_id t = k" ts]
  by (auto simp: payout_def find_transaction_def split: option.splits if_splits)

section \<open>The state after each operation\<close>

lemma getTransactions_addTransaction [simp]:
  "getTransactions (addTransaction t ls) = getTransactions ls @ [t]"
  by (simp add: getTransactions_def addTransaction_def Let_def)

lemma getInitialState_addTransaction [simp]:
  "getInitialState (addTransaction t ls) =
     (getInitialState ls)\<lparr>transactions := transactions (getInitialState ls) @ [t]\<rparr>"
  by (simp add: addTransaction_def Let_def)

lemma getTransactions_updateTransactionStatus [simp]:
  "getTransactions (updateTransactionStatus k st ls) = set_status k st (getTransactions ls)"
  by (simp add: getTransactions_def updateTransactionStatus_def Let_def set_status_absent
           split: option.splits)

lemma getUsers_updateTransactionStatus:
  "getUsers (updateTransactionStatus k st ls) =
     (case find_transaction k (getTransactions ls) of
        Some tx \<Rightarrow> if st = APPROVED
                   then credit_user (tx_userId tx) (tx_amount tx) (getUsers ls)
                   else getUsers ls
      | None \<Rightarrow> getUsers ls)"
  by (simp add: getTransactions_def getUsers_def updateTransactionStatus_def Let_def
        credit_user_absent split: option.splits)

lemma updateTransactionStatus_frame:
  "items (getInitialState (updateTransactionStatus k st ls)) = items (getInitialState ls)"
  "purchases (getInitialState (updateTransactionStatus k st ls)) = purchases (getInitialState ls)"
  "redeemCodes (getInitialState (updateTransactionStatus k st ls)) = redeemCodes (getInitialState ls)"
  "tickets (getInitialState (updateTransactionStatus k st ls)) = tickets (getInitialState ls)"
  by (simp_all add: updateTransactionStatus_def Let_def split: option.splits)

lemma getInitialState_updateTransactionStatus:
  "getInitialState (updateTransactionStatus k st ls) =
     (getInitialState ls)
       \<lparr>transactions := set_status k st (transactions (getInitialState ls)),
        users := (case payout k st (transactions (getInitialState ls)) of
                    None \<Rightarrow> users (getInitialState ls)
                  | Some (uid, a) \<Rightarrow> credit_user uid a (users (getInitialState ls)))\<rparr>"
  by (simp add: updateTransactionStatus_def Let_def payout_def set_status_absent
        credit_user_absent split: option.splits)

lemma updateTransactionStatus_persists:
  "updateTransactionStatus k st ls STORAGE_KEY \<noteq> None"
  by (simp add: updateTransactionStatus_def Let_def)

section \<open>Example data\<close>

abbreviation example_bank :: localStorage where
  "example_bank \<equiv>
     [STORAGE_KEY \<mapsto>
        \<lparr>users = [\<lparr>user_id = ''U'', role = USER, credits = 100\<rparr>],
         items = [], purchases = [],
         transactions = [\<lparr>tx_id = ''T'', tx_userId = ''U'', tx_amount = 50,
                          tx_status = PENDING\<rparr>],
         redeemCodes = [], tickets = []\<rparr>]"

section \<open>Properties\<close>

text \<open>
  C14: approving a transaction credits its owner with exactly the transaction's amount: the
  first transaction with the identifier gets status APPROVED, the first user whose
  identifier is the transaction's \<open>userId\<close> has the amount added to the credits, and the
  sum of all credits grows by that amount.
\<close>

theorem updateTransactionStatus_approved:
  assumes "find_transaction txId (getTransactions ls) = Some tx"
    and "find_user (tx_userId tx) (getUsers ls) = Some u"
  shows "find_transaction txId (getTransactions (updateTransactionStatus txId APPROVED ls)) =
           Some (tx\<lparr>tx_status := APPROVED\<rparr>) \<and>
         find_user (tx_userId tx) (getUsers (updateTransactionStatus txId APPROVED ls)) =
           Some (u\<lparr>credits := credits u + tx_amount tx\<rparr>) \<and>
         total_credits (getUsers (updateTransactionStatus txId APPROVED ls)) =
           total_credits (getUsers ls) + tx_amount tx"
  using assms
  by (simp add: find_transaction_set_status getUsers_updateTransactionStatus
        find_user_credit_user_same total_credits_credit_user)

theorem updateTransactionStatus_approved_witness:
  "find_user ''U'' (getUsers (updateTransactionStatus ''T'' APPROVED example_bank)) =
     Some \<lparr>user_id = ''U'', role = USER, credits = 150\<rparr> \<and>
   find_transaction ''T'' (getTransactions (updateTransactionStatus ''T'' APPROVED example_bank)) =
     Some \<lparr>tx_id = ''T'', tx_userId = ''U'', tx_amount = 50, tx_status = APPROVED\<rparr>"
  using updateTransactionStatus_approved
    [of "''T''" example_bank
        "\<lparr>tx_id = ''T'', tx_userId = ''U'', tx_amount = 50, tx_status = PENDING\<rparr>"
        "\<lparr>user_id = ''U'', role = USER, credits = 100\<rparr>"]
  by (simp add: getUsers_def getTransactions_def)

text \<open>
  C15: approval is not idempotent. The code does not look at the old status, so approving the
  same transaction a second time adds its amount to the owner's credits a second time.
\<close>

theorem updateTransactionStatus_approved_twice:
  assumes "find_transaction txId (getTransactions ls) = Some tx"
    and "find_user (tx_userId tx) (getUsers ls) = Some u"
  shows "find_user (tx_userId tx)
           (getUsers (updateTransactionStatus txId APPROVED
                        (updateTransactionStatus txId APPROVED ls))) =
         Some (u\<lparr>credits := credits u + 2 * tx_amount tx\<rparr>)"
  using assms
  by (simp add: find_transaction_set_status getUsers_updateTransactionStatus
        find_user_credit_user_same)

theorem updateTransactionStatus_approved_twice_witness:
  "find_user ''U''
     (getUsers (updateTransactionStatus ''T'' APPROVED
                  (updateTransactionStatus ''T'' APPROVED example_bank))) =
   Some \<lparr>user_id = ''U'', role = USER, credits = 200\<rparr>"
  using updateTransactionStatus_approved_twice
    [of "''T''" example_bank
        "\<lparr>tx_id = ''T'', tx_userId = ''U'', tx_amount = 50, tx_status = PENDING\<rparr>"
        "\<lparr>user_id = ''U'', role = USER, credits = 100\<rparr>"]
  by (simp add: getUsers_def getTransactions_def)

text \<open>
  C34: only the status APPROVED touches credits. Any other new status, and any identifier
  that no transaction has, leaves the users exactly as they were; the status of the first
  transaction with the identifier is overwritten whatever it was, so a paid-out transaction
  can be marked REJECTED afterwards without the credits being taken back.
\<close>

theorem updateTransactionStatus_no_credit:
  assumes "status \<noteq> APPROVED \<or> find_transaction txId (getTransactions ls) = None"
  shows "getUsers (updateTransactionStatus txId status ls) = getUsers ls \<and>
         find_transaction txId (getTransactions (updateTransactionStatus txId status ls)) =
           map_option (\<lambda>t. t\<lparr>tx_status := status\<rparr>) (find_transaction txId (getTransactions ls))"
  using assms
  by (auto simp: getUsers_updateTransactionStatus find_transaction_set_status
           split: option.splits)

theorem updateTransactionStatus_no_credit_witness:
  "getUsers (updateTransactionStatus ''T'' REJECTED
               (updateTransactionStatus ''T'' APPROVED example_bank)) =
     [\<lparr>user_id = ''U'', role = USER, credits = 150\<rparr>] \<and>
   find_transaction ''T''
     (getTransactions (updateTransactionStatus ''T'' REJECTED
                         (updateTransactionStatus ''T'' APPROVED example_bank))) =
     Some \<lparr>tx_id = ''T'', tx_userId = ''U'', tx_amount = 50, tx_status = REJECTED\<rparr>"
  using updateTransactionStatus_no_credit
    [of REJECTED "''T''" "updateTransactionStatus ''T'' APPROVED example_bank"]
  by (simp add: getUsers_updateTransactionStatus) (simp add: getUsers_def getTransactions_def)

end
