(* ===== verification/RedeemCodes.thy ===== *)
theory RedeemCodes
  imports Users
begin

text \<open>
  The redeem codes of \<^verbatim>\<open>DB\<close> (\<^verbatim>\<open>src/db.ts\<close>, lines 143 to 162):
  \<open>getRedeemCodes\<close>, \<open>addRedeemCode\<close> and \<open>redeem\<close>.

  \<open>redeem userId codeStr\<close> looks for the user first and for an unused code with the given
  text second; both failures return the storage unchanged. On success the code found (the
  first unused one with that text) is marked used and its amount is added to the user's
  credits. \<open>find_code\<close> is the search
  \<^verbatim>\<open>state.redeemCodes.find(c => c.code === codeStr && !c.isUsed)\<close>, \<open>mark_used\<close> the
  assignment \<^verbatim>\<open>code.isUsed = true\<close> through the reference it returns, and \<open>unused\<close>
  the codes with a given text that can still be redeemed.
\<close>

section \<open>Operations\<close>

datatype redeem_error = UserNotFound | InvalidOrUsedCode

fun redeem_error_message :: "redeem_error \<Rightarrow> string" where
  "redeem_error_message UserNotFound = ''User not found''"
| "redeem_error_message InvalidOrUsedCode = ''Invalid or already used code''"

definition find_code :: "string \<Rightarrow> RedeemCode list \<Rightarrow> RedeemCode option" where
  "find_code codeStr cs = find (\<lambda>c. code c = codeStr \<and> \<not> isUsed c) cs"

definition mark_used :: "string \<Rightarrow> RedeemCode list \<Rightarrow> RedeemCode list" where
  "mark_used codeStr cs =
     modify_first (\<lambda>c. code c = codeStr \<and> \<not> isUsed c) (\<lambda>c. c\<lparr>isUsed := True\<rparr>) cs"

definition getRedeemCodes :: "localStorage \<Rightarrow> RedeemCode list" where
  "getRedeemCodes ls = redeemCodes (getInitialState ls)"

definition addRedeemCode :: "RedeemCode \<Rightarrow> localStorage \<Rightarrow> localStorage" where
  "addRedeemCode c ls =
     (let state = getInitialState ls;
          state = state\<lparr>redeemCodes := redeemCodes state @ [c]\<rparr>
      in saveState state ls)"

definition redeem :: "string \<Rightarrow> string \<Rightarrow> localStorage \<Rightarrow> (redeem_error + int) \<times> localStorage" where
  "redeem userId codeStr ls =
     (let state = getInitialState ls
      in case find_user userId (users state) of
           None \<Rightarrow> (Inl UserNotFound, ls)
         | Some user \<Rightarrow>
             (case find_code codeStr (redeemCodes state) of
                None \<Rightarrow> (Inl InvalidOrUsedCode, ls)
              | Some c \<Rightarrow>
                  let state = state\<lparr>redeemCodes := mark_used codeStr (redeemCodes state),
                                     users := credit_user userId (code_amount c) (users state)\<rparr>
                  in (Inr (code_amount c), saveState state ls)))"

lemmas [db_defs] = getRedeemCodes_def addRedeemCode_def redeem_def

section \<open>Codes that can still be redeemed\<close>

definition unused :: "string \<Rightarrow> RedeemCode list \<Rightarrow> RedeemCode list" where
  "unused codeStr cs = filter (\<lambda>c. code c = codeStr \<and> \<not> isUsed c) cs"

section \<open>Search and marking\<close>

lemma find_code_Nil [simp]: "find_code k [] = None"
  by (simp add: find_code_def)

lemma find_code_Cons [simp]:
  "find_code k (c # cs) = (if code c = k \<and> \<not> isUsed c then Some c else find_code k cs)"
  by (simp add: find_code_def)

lemma mark_used_Nil [simp]: "mark_used k [] = []"
  by (simp add: mark_used_def)

lemma mark_used_Cons [simp]:
  "mark_used k (c # cs) =
     (if code c = k \<and> \<not> isUsed c then c\<lparr>isUsed := True\<rparr> # cs else c # mark_used k cs)"
  by (simp add: mark_used_def)

lemma find_code_unused: "find_code k cs = (case unused k cs of [] \<Rightarrow> None | c # _ \<Rightarrow> Some c)"
  by (simp add: find_code_def unused_def find_filter_hd)

lemma find_code_None_iff: "find_code k cs = None \<longleftrightarrow> unused k cs = []"
  by (simp add: find_code_unused split: list.splits)

lemma find_code_Some: "find_code k cs = Some c \<Longrightarrow> c \<in> set cs \<and> code c = k \<and> \<not> isUsed c"
  using find_Some_set [of "\<lambda>c. code c = k \<and> \<not> isUsed c" cs c] by (simp add: find_code_def)

lemma length_mark_used [simp]: "length (mark_used k cs) = length cs"
  by (simp add: mark_used_def)

lemma map_fields_mark_used [simp]:
  "map code (mark_used k cs) = map code cs"
  "map code_amount (mark_used k cs) = map code_amount cs"
  by (simp_all add: mark_used_def map_modify_first_keep)

lemma unused_mark_used: "unused k (mark_used k cs) = tl (unused k cs)"
  by (simp add: unused_def mark_used_def filter_modify_first_leave)

lemma unused_mark_used_other: "k' \<noteq> k \<Longrightarrow> unused k' (mark_used k cs) = unused k' cs"
  by (induction cs) (auto simp: unused_def)

lemma unused_append [simp]: "unused k (cs @ ds) = unused k cs @ unused k ds"
  by (simp add: unused_def)

lemma isUsed_mark_used:
  "n < length cs \<Longrightarrow> isUsed (cs ! n) \<Longrightarrow> isUsed (mark_used k cs ! n)"
  by (simp add: mark_used_def nth_modify_first)

section \<open>The branches of \<open>redeem\<close>\<close>

lemma getRedeemCodes_addRedeemCode [simp]:
  "getRedeemCodes (addRedeemCode c ls) = getRedeemCodes ls @ [c]"
  by (simp add: getRedeemCodes_def addRedeemCode_def Let_def)

lemma getInitialState_addRedeemCode [simp]:
  "getInitialState (addRedeemCode c ls) =
     (getInitialState ls)\<lparr>redeemCodes := redeemCodes (getInitialState ls) @ [c]\<rparr>"
  by (simp add: addRedeemCode_def Let_def)

lemma redeem_no_user:
  "find_user userId (getUsers ls) = None \<Longrightarrow> redeem userId codeStr ls = (Inl UserNotFound, ls)"
  by (simp add: redeem_def getUsers_def Let_def)

lemma redeem_no_code:
  "find_user userId (getUsers ls) = Some u \<Longrightarrow> find_code codeStr (getRedeemCodes ls) = None \<Longrightarrow>
   redeem userId codeStr ls = (Inl InvalidOrUsedCode, ls)"
  by (simp add: redeem_def getUsers_def getRedeemCodes_def Let_def)

lemma redeem_success:
  "find_user userId (getUsers ls) = Some u \<Longrightarrow> find_code codeStr (getRedeemCodes ls) = Some c \<Longrightarrow>
   redeem userId codeStr ls =
     (Inr (code_amount c),
      saveState ((getInitialState ls)
        \<lparr>redeemCodes := mark_used codeStr (getRedeemCodes ls),
         users := credit_user userId (code_amount c) (getUsers ls)\<rparr>) ls)"
  by (simp add: redeem_def getUsers_def getRedeemCodes_def Let_def)

lemmas redeem_branches = redeem_no_user redeem_no_code redeem_success

lemma redeem_cases:
  obtains (no_user) "find_user userId (getUsers ls) = None"
      "redeem userId codeStr ls = (Inl UserNotFound, ls)"
  | (no_code) u where "find_user userId (getUsers ls) = Some u"
      "unused codeStr (getRedeemCodes ls) = []"
      "redeem userId codeStr ls = (Inl InvalidOrUsedCode, ls)"
  | (success) u c rest where "find_user userId (getUsers ls) = Some u"
      "unused codeStr (getRedeemCodes ls) = c # rest"
      "redeem userId codeStr ls =
         (Inr (code_amount c),
          saveState ((getInitialState ls)
            \<lparr>redeemCodes := mark_used codeStr (getRedeemCodes ls),
             users := credit_user userId (code_amount c) (getUsers ls)\<rparr>) ls)"
proof (cases "find_user userId (getUsers ls)")
  case None
  then show ?thesis using no_user redeem_no_user by blast
next
  case u: (Some u)
  show ?thesis
  proof (cases "unused codeStr (getRedeemCodes ls)")
    case Nil
    with u show ?thesis using no_code redeem_no_code find_code_None_iff by blast
  next
    case (Cons c rest)
    then have "find_code codeStr (getRedeemCodes ls) = Some c"
      by (simp add: find_code_unused)
    with u Cons show ?thesis using success redeem_success by blast
  qed
qed

section \<open>Example data\<close>

abbreviation welcome_code :: RedeemCode where
  "welcome_code \<equiv> \<lparr>code = ''WELCOME10'', code_amount = 10, isUsed = False\<rparr>"

abbreviation example_codes :: localStorage where
  "example_codes \<equiv>
     [STORAGE_KEY \<mapsto>
        \<lparr>users = [\<lparr>user_id = ''U'', role = USER, credits = 100\<rparr>],
         items = [], purchases = [], transactions = [],
         redeemCodes = [welcome_code], tickets = []\<rparr>]"

lemma example_codes_simps [simp]:
  "getUsers example_codes = [\<lparr>user_id = ''U'', role = USER, credits = 100\<rparr>]"
  "getRedeemCodes example_codes = [welcome_code]"
  by (simp_all add: getUsers_def getRedeemCodes_def)

section \<open>Properties\<close>

text \<open>
  C11: a successful \<open>redeem\<close> uses up exactly one code: with the user present and \<open>c\<close> the
  first unused code with the given text, the call returns the amount of \<open>c\<close>, the unused
  codes with that text are afterwards the old ones without \<open>c\<close>, codes with another text
  are untouched, and the amount is added to the credits of the user.
\<close>

theorem redeem_uses_code:
  assumes "find_user userId (getUsers ls) = Some u"
    and "unused codeStr (getRedeemCodes ls) = c # rest"
  shows "fst (redeem userId codeStr ls) = Inr (code_amount c) \<and>
         unused codeStr (getRedeemCodes (snd (redeem userId codeStr ls))) = rest \<and>
         (\<forall>k. k \<noteq> codeStr \<longrightarrow>
            unused k (getRedeemCodes (snd (redeem userId codeStr ls))) =
            unused k (getRedeemCodes ls)) \<and>
         find_user userId (getUsers (snd (redeem userId codeStr ls))) =
           Some (u\<lparr>credits := credits u + code_amount c\<rparr>) \<and>
         total_credits (getUsers (snd (redeem userId codeStr ls))) =
           total_credits (getUsers ls) + code_amount c"
proof -
  from assms(2) have "find_code codeStr (getRedeemCodes ls) = Some c"
    by (simp add: find_code_unused)
  from redeem_success [OF assms(1) this] assms show ?thesis
    by (simp add: getRedeemCodes_def getUsers_def unused_mark_used unused_mark_used_other
          find_user_credit_user_same total_credits_credit_user)
qed

theorem redeem_uses_code_witness:
  "fst (redeem ''U'' ''WELCOME10'' example_codes) = Inr 10 \<and>
   unused ''WELCOME10'' (getRedeemCodes (snd (redeem ''U'' ''WELCOME10'' example_codes))) = [] \<and>
   find_user ''U'' (getUsers (snd (redeem ''U'' ''WELCOME10'' example_codes))) =
     Some \<lparr>user_id = ''U'', role = USER, credits = 110\<rparr>"
  using redeem_uses_code
    [of "''U''" example_codes "\<lparr>user_id = ''U'', role = USER, credits = 100\<rparr>"
        "''WELCOME10''" welcome_code "[]"]
  by (simp add: unused_def)

text \<open>
  C12: a code that is marked used cannot be redeemed: if every code with the given text is
  used, \<open>redeem\<close> fails and returns the storage unchanged, so no credits move. The error is
  "Invalid or already used code" for a user that exists; for a user that does not exist the
  user check comes first and the error is "User not found".
\<close>

theorem redeem_used_code_fails:
  assumes "\<forall>c \<in> set (getRedeemCodes ls). code c = codeStr \<longrightarrow> isUsed c"
  shows "redeem userId codeStr ls =
           (if find_user userId (getUsers ls) = None then Inl UserNotFound
            else Inl InvalidOrUsedCode, ls)"
proof -
  from assms have "unused codeStr (getRedeemCodes ls) = []"
    by (auto simp: unused_def filter_empty_conv)
  then show ?thesis
    by (cases rule: redeem_cases [where userId = userId and ls = ls and codeStr = codeStr])
       simp_all
qed

theorem redeem_used_code_fails_witness:
  "redeem ''U'' ''WELCOME10'' (snd (redeem ''U'' ''WELCOME10'' example_codes)) =
     (Inl InvalidOrUsedCode, snd (redeem ''U'' ''WELCOME10'' example_codes))"
  using redeem_used_code_fails
    [of "snd (redeem ''U'' ''WELCOME10'' example_codes)" "''WELCOME10''" "''U''"]
  by (simp add: redeem_def Let_def getUsers_def getRedeemCodes_def)

text \<open>
  C31: the outcome of \<open>redeem\<close> as a decision table, in the order of the code's checks: a
  missing user first, then the absence of an unused code with the given text; otherwise the
  amount of the first such code.
\<close>

theorem redeem_outcome:
  "fst (redeem userId codeStr ls) =
     (case find_user userId (getUsers ls) of
        None \<Rightarrow> Inl UserNotFound
      | Some u \<Rightarrow> (case unused codeStr (getRedeemCodes ls) of
                     [] \<Rightarrow> Inl InvalidOrUsedCode
                   | c # _ \<Rightarrow> Inr (code_amount c)))"
  by (cases rule: redeem_cases [where userId = userId and ls = ls and codeStr = codeStr])
     simp_all

text \<open>
  C32: \<open>isUsed\<close> is a latch under \<open>redeem\<close>. Whatever the outcome, the codes keep their
  positions, texts and amounts, and a code that was used is still used.
\<close>

theorem redeem_latch:
  "map code (getRedeemCodes (snd (redeem userId codeStr ls))) = map code (getRedeemCodes ls) \<and>
   map code_amount (getRedeemCodes (snd (redeem userId codeStr ls))) =
     map code_amount (getRedeemCodes ls) \<and>
   (\<forall>n < length (getRedeemCodes ls).
      isUsed (getRedeemCodes ls ! n) \<longrightarrow>
      isUsed (getRedeemCodes (snd (redeem userId codeStr ls)) ! n))"
  by (cases rule: redeem_cases [where userId = userId and ls = ls and codeStr = codeStr])
     (simp_all add: getRedeemCodes_def isUsed_mark_used)

theorem redeem_latch_witness:
  "fst (redeem ''U'' ''SPRING''
     (addRedeemCode \<lparr>code = ''SPRING'', code_amount = 3, isUsed = False\<rparr>
        (snd (redeem ''U'' ''WELCOME10'' example_codes)))) = Inr 3 \<and>
   map code (getRedeemCodes (snd (redeem ''U'' ''SPRING''
     (addRedeemCode \<lparr>code = ''SPRING'', code_amount = 3, isUsed = False\<rparr>
        (snd (redeem ''U'' ''WELCOME10'' example_codes)))))) = [''WELCOME10'', ''SPRING''] \<and>
   isUsed (getRedeemCodes (snd (redeem ''U'' ''SPRING''
     (addRedeemCode \<lparr>code = ''SPRING'', code_amount = 3, isUsed = False\<rparr>
        (snd (redeem ''U'' ''WELCOME10'' example_codes))))) ! 0)"
  using redeem_latch [of "''U''" "''SPRING''"
      "addRedeemCode \<lparr>code = ''SPRING'', code_amount = 3, isUsed = False\<rparr>
         (snd (redeem ''U'' ''WELCOME10'' example_codes))"]
  by (simp add: redeem_def Let_def getUsers_def getRedeemCodes_def find_code_def)

text \<open>
  C33: one-time use holds per record, not per code text. \<open>addRedeemCode\<close> checks nothing, so
  appending an unused record with the text of a code that has been used makes that text
  redeemable once more.
\<close>

theorem addRedeemCode_revives:
  assumes "find_user userId (getUsers ls) = Some u"
    and "unused (code c) (getRedeemCodes ls) = []"
    and "\<not> isUsed c"
  shows "fst (redeem userId (code c) ls) = Inl InvalidOrUsedCode \<and>
         fst (redeem userId (code c) (addRedeemCode c ls)) = Inr (code_amount c)"
proof -
  have "getUsers (addRedeemCode c ls) = getUsers ls"
    by (simp add: getUsers_def)
  with assms have "find_user userId (getUsers (addRedeemCode c ls)) = Some u"
    "find_code (code c) (getRedeemCodes (addRedeemCode c ls)) = Some c"
    by (simp_all add: find_code_unused unused_def)
  from redeem_success [OF this] redeem_no_code [OF assms(1)] assms(2)
  show ?thesis by (simp add: find_code_None_iff)
qed

theorem addRedeemCode_revives_witness:
  "fst (redeem ''U'' ''WELCOME10'' (snd (redeem ''U'' ''WELCOME10'' example_codes))) =
     Inl InvalidOrUsedCode \<and>
   fst (redeem ''U'' ''WELCOME10''
         (addRedeemCode welcome_code (snd (redeem ''U'' ''WELCOME10'' example_codes)))) = Inr 10"
  using addRedeemCode_revives
    [of "''U''" "snd (redeem ''U'' ''WELCOME10'' example_codes)"
        "\<lparr>user_id = ''U'', role = USER, credits = 110\<rparr>" welcome_code]
  by (simp add: redeem_def Let_def getUsers_def getRedeemCodes_def unused_def)

end
