(* ===== verification/Tickets.thy ===== *)
theory Tickets
  imports Storage
begin

text \<open>
  The support tickets of \<^verbatim>\<open>DB\<close> (\<^verbatim>\<open>src/db.ts\<close>, lines 164 to 188):
  \<open>getTickets\<close>, \<open>createTicket\<close>, \<open>addTicketMessage\<close> and \<open>closeTicket\<close>.

  Both updates stamp the ticket with \<^verbatim>\<open>Date.now()\<close>, which is the parameter \<open>now\<close>;
  both save the document also when no ticket has the identifier. \<open>closeTicket\<close> is the
  only assignment to a ticket's status in the layer, and \<open>addTicketMessage\<close> does not
  look at the status. \<open>fresh\<close> is the specification's invariant that \<open>lastUpdated\<close> is
  not older than any message of the ticket.
\<close>

section \<open>Operations\<close>

definition find_ticket :: "string \<Rightarrow> Ticket list \<Rightarrow> Ticket option" where
  "find_ticket ticketId ts = find (\<lambda>t. ticket_id t = ticketId) ts"

definition getTickets :: "localStorage \<Rightarrow> Ticket list" where
  "getTickets ls = tickets (getInitialState ls)"

definition createTicket :: "Ticket \<Rightarrow> localStorage \<Rightarrow> localStorage" where
  "createTicket ticket ls =
     (let state = getInitialState ls;
          state = state\<lparr>tickets := tickets state @ [ticket]\<rparr>
      in saveState state ls)"

definition addTicketMessage :: "string \<Rightarrow> TicketMessage \<Rightarrow> int \<Rightarrow> localStorage \<Rightarrow> localStorage" where
  "addTicketMessage ticketId message now ls =
     (let state = getInitialState ls;
          state =
            (case find_ticket ticketId (tickets state) of
               Some ticket \<Rightarrow>
                 state\<lparr>tickets :=
                   modify_first (\<lambda>t. ticket_id t = ticketId)
                     (\<lambda>t. t\<lparr>messages := messages t @ [message], lastUpdated := now\<rparr>)
                     (tickets state)\<rparr>
             | None \<Rightarrow> state)
      in saveState state ls)"

definition closeTicket :: "string \<Rightarrow> int \<Rightarrow> localStorage \<Rightarrow> localStorage" where
  "closeTicket ticketId now ls =
     (let state = getInitialState ls;
          state =
            (case find_ticket ticketId (tickets state) of
               Some ticket \<Rightarrow>
                 state\<lparr>tickets :=
                   modify_first (\<lambda>t. ticket_id t = ticketId)
                     (\<lambda>t. t\<lparr>ticket_status := CLOSED, lastUpdated := now\<rparr>)
                     (tickets state)\<rparr>
             | None \<Rightarrow> state)
      in saveState state ls)"

lemmas [db_defs] = getTickets_def createTicket_def addTicketMessage_def closeTicket_def

section \<open>Freshness\<close>

definition fresh :: "Ticket \<Rightarrow> bool" where
  "fresh t \<longleftrightarrow> list_all (\<lambda>m. message_timestamp m \<le> lastUpdated t) (messages t)"

section \<open>Lookup\<close>

lemma find_ticket_Nil [simp]: "find_ticket k [] = None"
  by (simp add: find_ticket_def)

lemma find_ticket_Cons [simp]:
  "find_ticket k (t # ts) = (if ticket_id t = k then Some t else find_ticket k ts)"
  by (simp add: find_ticket_def)

lemma find_ticket_append:
  "find_ticket k (ts @ us) = (case find_ticket k ts of None \<Rightarrow> find_ticket k us | Some t \<Rightarrow> Some t)"
  by (induction ts) auto

lemma find_ticket_modify:
  "(\<And>t. ticket_id (f t) = ticket_id t) \<Longrightarrow>
   find_ticket k' (modify_first (\<lambda>t. ticket_id t = k) f ts) =
     (if k' = k then map_option f (find_ticket k ts) else find_ticket k' ts)"
  by (induction ts) auto

lemma modify_ticket_absent:
  "find_ticket k ts = None \<Longrightarrow> modify_first (\<lambda>t. ticket_id t = k) f ts = ts"
  by (simp add: find_ticket_def modify_first_absent)

section \<open>The state after each operation\<close>

lemma getTickets_createTicket [simp]: "getTickets (createTicket t ls) = getTickets ls @ [t]"
  by (simp add: getTickets_def createTicket_def Let_def)

lemma getInitialState_createTicket [simp]:
  "getInitialState (createTicket t ls) =
     (getInitialState ls)\<lparr>tickets := tickets (getInitialState ls) @ [t]\<rparr>"
  by (simp add: createTicket_def Let_def)

lemma getInitialState_addTicketMessage [simp]:
  "getInitialState (addTicketMessage k m now ls) =
     (getInitialState ls)\<lparr>tickets :=
        modify_first (\<lambda>t. ticket_id t = k)
          (\<lambda>t. t\<lparr>messages := messages t @ [m], lastUpdated := now\<rparr>)
          (tickets (getInitialState ls))\<rparr>"
  by (simp add: addTicketMessage_def Let_def modify_ticket_absent split: option.splits)

lemma getInitialState_closeTicket [simp]:
  "getInitialState (closeTicket k now ls) =
     (getInitialState ls)\<lparr>tickets :=
        modify_first (\<lambda>t. ticket_id t = k)
          (\<lambda>t. t\<lparr>ticket_status := CLOSED, lastUpdated := now\<rparr>)
          (tickets (getInitialState ls))\<rparr>"
  by (simp add: closeTicket_def Let_def modify_ticket_absent split: option.splits)

lemma ticket_ops_persist:
  "addTicketMessage k m now ls STORAGE_KEY \<noteq> None"
  "closeTicket k now ls STORAGE_KEY \<noteq> None"
  by (simp_all add: addTicketMessage_def closeTicket_def Let_def)

section \<open>Example data\<close>

abbreviation example_ticket :: Ticket where
  "example_ticket \<equiv>
     \<lparr>ticket_id = ''K'',
      messages = [\<lparr>sender = ''U'', message_content = ''help'', message_timestamp = 100\<rparr>],
      ticket_status = OPEN, lastUpdated = 100\<rparr>"

abbreviation example_desk :: localStorage where
  "example_desk \<equiv>
     [STORAGE_KEY \<mapsto>
        \<lparr>users = [], items = [], purchases = [], transactions = [], redeemCodes = [],
         tickets = [example_ticket]\<rparr>]"

section \<open>Properties\<close>

text \<open>
  C36: \<open>addTicketMessage\<close> appends the message to the first ticket with the identifier and
  stamps that ticket with the current time; its status and identifier stay, and the lookup
  of every other identifier is unchanged. The status is not consulted: a CLOSED ticket
  accepts messages and stays CLOSED. Without such a ticket nothing changes.
\<close>

theorem addTicketMessage_appends:
  "find_ticket k (getTickets (addTicketMessage ticketId message now ls)) =
     (if k = ticketId
      then map_option (\<lambda>t. t\<lparr>messages := messages t @ [message], lastUpdated := now\<rparr>)
             (find_ticket ticketId (getTickets ls))
      else find_ticket k (getTickets ls)) \<and>
   map ticket_status (getTickets (addTicketMessage ticketId message now ls)) =
     map ticket_status (getTickets ls)"
  by (simp add: getTickets_def find_ticket_modify map_modify_first_keep)

text \<open>
  C37: \<open>closeTicket\<close> sets the status of the first ticket with the identifier to CLOSED and
  stamps it with the current time; its messages stay, and the lookup of every other
  identifier is unchanged.
\<close>

theorem closeTicket_closes:
  "find_ticket k (getTickets (closeTicket ticketId now ls)) =
     (if k = ticketId
      then map_option (\<lambda>t. t\<lparr>ticket_status := CLOSED, lastUpdated := now\<rparr>)
             (find_ticket ticketId (getTickets ls))
      else find_ticket k (getTickets ls)) \<and>
   map messages (getTickets (closeTicket ticketId now ls)) = map messages (getTickets ls)"
  by (simp add: getTickets_def find_ticket_modify map_modify_first_keep)

text \<open>
  C38: the code keeps \<open>lastUpdated\<close> at or after every message of a ticket only as far as
  its callers do: if the ticket is fresh, the clock has not gone back behind its
  \<open>lastUpdated\<close>, and the new message is not stamped later than the current time, the
  ticket is fresh after \<open>addTicketMessage\<close>.
\<close>

theorem addTicketMessage_fresh:
  assumes "find_ticket ticketId (getTickets ls) = Some t"
    and "fresh t"
    and "lastUpdated t \<le> now"
    and "message_timestamp message \<le> now"
  shows "\<exists>t'. find_ticket ticketId (getTickets (addTicketMessage ticketId message now ls)) = Some t'
           \<and> fresh t'"
  using assms
  by (auto simp: getTickets_def find_ticket_modify fresh_def list_all_iff)

theorem addTicketMessage_fresh_witness:
  "\<exists>t'. find_ticket ''K'' (getTickets (addTicketMessage ''K''
       \<lparr>sender = ''A'', message_content = ''hello'', message_timestamp = 150\<rparr> 200 example_desk))
     = Some t' \<and> fresh t'"
  using addTicketMessage_fresh
    [of "''K''" example_desk example_ticket 200
        "\<lparr>sender = ''A'', message_content = ''hello'', message_timestamp = 150\<rparr>"]
  by (simp add: getTickets_def fresh_def)

text \<open>
  C39: nothing in the code enforces that invariant. \<open>addTicketMessage\<close> stores the message's
  own timestamp as given and sets \<open>lastUpdated\<close> to the current time, so a message stamped
  later than the current time leaves the ticket with a message newer than its
  \<open>lastUpdated\<close>.
\<close>

theorem addTicketMessage_not_fresh:
  assumes "find_ticket ticketId (getTickets ls) = Some t"
    and "now < message_timestamp message"
  shows "\<exists>t'. find_ticket ticketId (getTickets (addTicketMessage ticketId message now ls)) = Some t'
           \<and> \<not> fresh t' \<and> lastUpdated t' = now \<and> last (messages t') = message"
  using assms
  by (auto simp: getTickets_def find_ticket_modify fresh_def)

theorem addTicketMessage_not_fresh_witness:
  "\<exists>t'. find_ticket ''K'' (getTickets (addTicketMessage ''K''
       \<lparr>sender = ''A'', message_content = ''hello'', message_timestamp = 300\<rparr> 200 example_desk))
     = Some t' \<and> \<not> fresh t' \<and> lastUpdated t' = 200"
  using addTicketMessage_not_fresh
    [of "''K''" example_desk example_ticket 200
        "\<lparr>sender = ''A'', message_content = ''hello'', message_timestamp = 300\<rparr>"]
  by (simp add: getTickets_def)

end
