(* ===== verification/Shop_Machine.thy ===== *)
theory Shop_Machine
  imports Users Items Purchases Transactions RedeemCodes Tickets
begin

text \<open>
  The data-access layer as one state machine. The state is the browser storage; an
  \<open>operation\<close> is one call of a method of \<^verbatim>\<open>DB\<close> that can write (the getters and
  \<open>verifyUser\<close> never write and are left out), with the arguments of the call and, for the
  three methods that read the clock or the random generator, the values read. \<open>step\<close>
  dispatches a call to the method's model and keeps the storage it leaves; \<open>run\<close> is a
  sequence of calls, one after the other, as the single-threaded caller issues them.

  The lemmas of this theory are the one-step facts (what a call can and cannot change);
  the theorems about whole runs are in the root theory.
\<close>

section \<open>Calls and runs\<close>

datatype operation =
    AddUser User
  | UpdateUserCredits string int
  | AddItem Item
  | UpdateItem Item
  | DeleteItem string
  | AddPurchase Purchase
  | ProcessPurchase string string string int
  | AddTransaction Transaction
  | UpdateTransactionStatus string TransactionStatus
  | AddRedeemCode RedeemCode
  | Redeem string string
  | CreateTicket Ticket
  | AddTicketMessage string TicketMessage int
  | CloseTicket string int

fun step :: "operation \<Rightarrow> localStorage \<Rightarrow> localStorage" where
  "step (AddUser user) ls = addUser user ls"
| "step (UpdateUserCredits userId amount) ls = updateUserCredits userId amount ls"
| "step (AddItem item) ls = addItem item ls"
| "step (UpdateItem item) ls = snd (updateItem item ls)"
| "step (DeleteItem itemId) ls = deleteItem itemId ls"
| "step (AddPurchase purchase) ls = addPurchase purchase ls"
| "step (ProcessPurchase userId itemId newId now) ls =
     snd (processPurchase userId itemId newId now ls)"
| "step (AddTransaction transaction) ls = addTransaction transaction ls"
| "step (UpdateTransactionStatus txId status) ls = updateTransactionStatus txId status ls"
| "step (AddRedeemCode c) ls = addRedeemCode c ls"
| "step (Redeem userId codeStr) ls = snd (redeem userId codeStr ls)"
| "step (CreateTicket ticket) ls = createTicket ticket ls"
| "step (AddTicketMessage ticketId message now) ls = addTicketMessage ticketId message now ls"
| "step (CloseTicket ticketId now) ls = closeTicket ticketId now ls"

fun run :: "operation list \<Rightarrow> localStorage \<Rightarrow> localStorage" where
  "run [] ls = ls"
| "run (op # ops) ls = run ops (step op ls)"

section \<open>Growth of the document\<close>

text \<open>
  \<open>grows s s'\<close>: the purchase log of \<open>s\<close> is an initial segment of that of \<open>s'\<close>, and so
  are the identifiers of its users, transactions and tickets and the texts and amounts of
  its redeem codes. Items are absent from the list: they are the one collection with a
  delete operation.
\<close>

definition grows :: "DBState \<Rightarrow> DBState \<Rightarrow> bool" where
  "grows s s' \<longleftrightarrow>
     prefix (purchases s) (purchases s') \<and>
     prefix (map user_id (users s)) (map user_id (users s')) \<and>
     prefix (map tx_id (transactions s)) (map tx_id (transactions s')) \<and>
     prefix (map code (redeemCodes s)) (map code (redeemCodes s')) \<and>
     prefix (map code_amount (redeemCodes s)) (map code_amount (redeemCodes s')) \<and>
     prefix (map ticket_id (tickets s)) (map ticket_id (tickets s'))"

section \<open>Latches\<close>

text \<open>
  \<open>latched s s'\<close>: position by position, a redeem code that is used in \<open>s\<close> is used in
  \<open>s'\<close>, a ticket that is CLOSED in \<open>s\<close> is CLOSED in \<open>s'\<close>, and the messages of a ticket
  of \<open>s\<close> are an initial segment of its messages in \<open>s'\<close>.
\<close>

definition latched :: "DBState \<Rightarrow> DBState \<Rightarrow> bool" where
  "latched s s' \<longleftrightarrow>
     length (redeemCodes s) \<le> length (redeemCodes s') \<and>
     length (tickets s) \<le> length (tickets s') \<and>
     (\<forall>n < length (redeemCodes s).
        isUsed (redeemCodes s ! n) \<longrightarrow> isUsed (redeemCodes s' ! n)) \<and>
     (\<forall>n < length (tickets s).
        (ticket_status (tickets s ! n) = CLOSED \<longrightarrow> ticket_status (tickets s' ! n) = CLOSED) \<and>
        prefix (messages (tickets s ! n)) (messages (tickets s' ! n)))"

section \<open>The ledger\<close>

text \<open>
  \<open>ledger s\<close> is the money the document accounts for: all credits plus all logged prices.
  \<open>inflow op ls\<close> is what the call \<open>op\<close> adds to it in the storage \<open>ls\<close>: the credits
  of an added user, the amount of a credit update, an approval or a redeemed code if the
  account exists, the price of a purchase record that is appended by hand; nothing for a
  processed purchase, which only moves credits into the log.
\<close>

definition ledger :: "DBState \<Rightarrow> int" where
  "ledger s = total_credits (users s) + revenue (purchases s)"

fun inflow :: "operation \<Rightarrow> localStorage \<Rightarrow> int" where
  "inflow (AddUser user) ls = credits user"
| "inflow (UpdateUserCredits userId amount) ls =
     (if find_user userId (getUsers ls) = None then 0 else amount)"
| "inflow (AddPurchase purchase) ls = purchase_price purchase"
| "inflow (UpdateTransactionStatus txId status) ls =
     (case payout txId status (getTransactions ls) of
        Some (uid, a) \<Rightarrow> if find_user uid (getUsers ls) = None then 0 else a
      | None \<Rightarrow> 0)"
| "inflow (Redeem userId codeStr) ls =
     (case fst (redeem userId codeStr ls) of Inr a \<Rightarrow> a | Inl e \<Rightarrow> 0)"
| "inflow op ls = 0"

fun inflows :: "operation list \<Rightarrow> localStorage \<Rightarrow> int" where
  "inflows [] ls = 0"
| "inflows (op # ops) ls = inflow op ls + inflows ops (step op ls)"

section \<open>The abstract ledger\<close>

text \<open>
  What a call does to the balance map: \<open>addUser\<close> opens an account, the four calls that
  move credits credit one account, every other call is the identity. The account and the
  amount are read off the storage in which the call is made.
\<close>

fun ledger_op :: "operation \<Rightarrow> localStorage \<Rightarrow> (string \<rightharpoonup> int) \<Rightarrow> (string \<rightharpoonup> int)" where
  "ledger_op (AddUser user) ls = open_account (user_id user) (credits user)"
| "ledger_op (UpdateUserCredits userId amount) ls = credit_account userId amount"
| "ledger_op (ProcessPurchase userId itemId newId now) ls =
     (case (fst (processPurchase userId itemId newId now ls), find_item itemId (getItems ls)) of
        (Inr c, Some i) \<Rightarrow> credit_account userId (- item_price i)
      | _ \<Rightarrow> id)"
| "ledger_op (UpdateTransactionStatus txId status) ls =
     (case payout txId status (getTransactions ls) of
        Some (uid, a) \<Rightarrow> credit_account uid a
      | None \<Rightarrow> id)"
| "ledger_op (Redeem userId codeStr) ls =
     (case fst (redeem userId codeStr ls) of
        Inr a \<Rightarrow> credit_account userId a
      | Inl e \<Rightarrow> id)"
| "ledger_op op ls = id"

fun ledger_run :: "operation list \<Rightarrow> localStorage \<Rightarrow> (string \<rightharpoonup> int) \<Rightarrow> (string \<rightharpoonup> int)" where
  "ledger_run [] ls b = b"
| "ledger_run (op # ops) ls b = ledger_run ops (step op ls) (ledger_op op ls b)"

section \<open>Solvency\<close>

text \<open>
  A document is \<open>solvent\<close> when no user has negative credits and no transaction or redeem
  code carries a negative amount. A call is \<open>benign\<close> when the caller does not inject a
  negative amount; the arguments of purchases, item and ticket calls are not restricted.
  \<open>reachable\<close> are the storages that benign calls produce from a first run.
\<close>

definition solvent :: "DBState \<Rightarrow> bool" where
  "solvent s \<longleftrightarrow>
     list_all (\<lambda>u. 0 \<le> credits u) (users s) \<and>
     list_all (\<lambda>t. 0 \<le> tx_amount t) (transactions s) \<and>
     list_all (\<lambda>c. 0 \<le> code_amount c) (redeemCodes s)"

fun benign :: "operation \<Rightarrow> bool" where
  "benign (AddUser user) = (0 \<le> credits user)"
| "benign (UpdateUserCredits userId amount) = (0 \<le> amount)"
| "benign (AddTransaction transaction) = (0 \<le> tx_amount transaction)"
| "benign (AddRedeemCode c) = (0 \<le> code_amount c)"
| "benign op = True"

inductive reachable :: "localStorage \<Rightarrow> bool" where
  first_run: "ls STORAGE_KEY = None \<Longrightarrow> reachable ls"
| call: "reachable ls \<Longrightarrow> benign op \<Longrightarrow> reachable (step op ls)"

section \<open>Runs\<close>

lemmas getter_defs =
  getUsers_def getItems_def getPurchases_def getTransactions_def getRedeemCodes_def
  getTickets_def

lemma run_append: "run (ops @ ops') ls = run ops' (run ops ls)"
  by (induction ops arbitrary: ls) auto

lemma run_snoc: "run (ops @ [op]) ls = step op (run ops ls)"
  by (simp add: run_append)

lemma run_invariant:
  assumes "P ls" and "\<And>op ls. P ls \<Longrightarrow> P (step op ls)"
  shows "P (run ops ls)"
  using assms(1) by (induction ops arbitrary: ls) (auto intro: assms(2))

lemma run_relation:
  assumes "\<And>ls. R ls ls" and "\<And>a b c. R a b \<Longrightarrow> R b c \<Longrightarrow> R a c"
    and "\<And>op ls. R ls (step op ls)"
  shows "R ls (run ops ls)"
proof (induction ops arbitrary: ls)
  case Nil
  show ?case by (simp add: assms(1))
next
  case (Cons op ops)
  from assms(3) [of ls op] Cons.IH [of "step op ls"] show ?case
    by (auto intro: assms(2))
qed

section \<open>Every call either returns the storage or saves a document\<close>

lemma step_shape: "step op ls = ls \<or> (\<exists>state. step op ls = saveState state ls)"
proof (cases op)
  case (UpdateItem item)
  then show ?thesis
    by (auto simp: updateItem_def Let_def split: option.splits)
next
  case (ProcessPurchase userId itemId newId now)
  then show ?thesis
    by (cases rule: processPurchase_cases [where userId = userId and itemId = itemId
          and ls = ls and newId = newId and now = now]) auto
next
  case (Redeem userId codeStr)
  then show ?thesis
    by (cases rule: redeem_cases [where userId = userId and ls = ls and codeStr = codeStr]) auto
qed (auto simp: db_defs Let_def)

lemma step_other_key: "k \<noteq> STORAGE_KEY \<Longrightarrow> step op ls k = ls k"
  using step_shape [of op ls] by auto

section \<open>Every call reads the one key\<close>

text \<open>
  Two storages that hold the same value under \<open>STORAGE_KEY\<close> load the same document, so
  every call answers the same in both and leaves the same value under the key.
\<close>

lemma getInitialState_cong:
  "ls STORAGE_KEY = ls' STORAGE_KEY \<Longrightarrow> getInitialState ls = getInitialState ls'"
  by (simp add: getInitialState_def)

lemma getters_cong:
  assumes "ls STORAGE_KEY = ls' STORAGE_KEY"
  shows "getUsers ls = getUsers ls'" "getItems ls = getItems ls'"
    "getPurchases ls = getPurchases ls'" "getRedeemCodes ls = getRedeemCodes ls'"
  using getInitialState_cong [of ls ls'] assms
  by (simp_all add: getUsers_def getItems_def getPurchases_def getRedeemCodes_def)

lemma processPurchase_key_cong:
  assumes "ls' STORAGE_KEY = ls STORAGE_KEY"
  shows "fst (processPurchase userId itemId newId now ls') =
           fst (processPurchase userId itemId newId now ls) \<and>
         snd (processPurchase userId itemId newId now ls') STORAGE_KEY =
           snd (processPurchase userId itemId newId now ls) STORAGE_KEY"
proof -
  note g = getters_cong [of ls' ls] getInitialState_cong [of ls' ls]
  show ?thesis
  proof (cases rule: processPurchase_cases [where userId = userId and itemId = itemId
        and ls = ls and newId = newId and now = now])
    case not_found
    with assms have "processPurchase userId itemId newId now ls' = (Inl UserOrItemNotFound, ls')"
      by (intro processPurchase_not_found) (simp add: g)
    with not_found(2) assms show ?thesis by simp
  next
    case (insufficient u i)
    with assms have "processPurchase userId itemId newId now ls' = (Inl InsufficientCredits, ls')"
      by (intro processPurchase_insufficient) (simp_all add: g)
    with insufficient(4) assms show ?thesis by simp
  next
    case (out_of_stock u i)
    with assms have "processPurchase userId itemId newId now ls' = (Inl OutOfStock, ls')"
      by (intro processPurchase_out_of_stock) (simp_all add: g fulfil_None_iff)
    with out_of_stock(6) assms show ?thesis by simp
  next
    case (success u i c i')
    from success(1-4) assms show ?thesis
      by (simp add: success(5) processPurchase_success [of userId ls' u itemId i c i'] g)
  qed
qed

lemma redeem_key_cong:
  assumes "ls' STORAGE_KEY = ls STORAGE_KEY"
  shows "fst (redeem userId codeStr ls') = fst (redeem userId codeStr ls) \<and>
         snd (redeem userId codeStr ls') STORAGE_KEY = snd (redeem userId codeStr ls) STORAGE_KEY"
proof -
  have "getInitialState ls' = getInitialState ls"
    using assms by (rule getInitialState_cong)
  with assms show ?thesis
    by (simp add: redeem_def Let_def split: option.splits)
qed

lemma updateItem_key_cong:
  assumes "ls' STORAGE_KEY = ls STORAGE_KEY"
  shows "fst (updateItem item ls') = fst (updateItem item ls) \<and>
         snd (updateItem item ls') STORAGE_KEY = snd (updateItem item ls) STORAGE_KEY"
proof -
  have "getInitialState ls' = getInitialState ls"
    using assms by (rule getInitialState_cong)
  with assms show ?thesis
    by (simp add: updateItem_def Let_def split: option.splits)
qed

lemma step_key_cong:
  assumes "ls' STORAGE_KEY = ls STORAGE_KEY"
  shows "step op ls' STORAGE_KEY = step op ls STORAGE_KEY"
proof (cases op)
  case (UpdateItem item)
  then show ?thesis using assms updateItem_key_cong [of ls' ls item] by simp
next
  case (ProcessPurchase userId itemId newId now)
  then show ?thesis
    using assms processPurchase_key_cong [of ls' ls userId itemId newId now] by simp
next
  case (Redeem userId codeStr)
  then show ?thesis using assms redeem_key_cong [of ls' ls userId codeStr] by simp
qed (use getInitialState_cong [of ls' ls] assms in \<open>simp_all add: db_defs Let_def\<close>)

section \<open>No call deletes or reorders users, purchases, transactions, codes or tickets\<close>

lemma grows_refl [simp]: "grows s s"
  by (simp add: grows_def)

lemma grows_trans: "grows a b \<Longrightarrow> grows b c \<Longrightarrow> grows a c"
  by (auto simp: grows_def)

lemma grows_users [simp]:
  "map user_id us' = map user_id (users s) \<Longrightarrow> grows s (s\<lparr>users := us'\<rparr>)"
  "grows s (s\<lparr>users := users s @ us\<rparr>)"
  by (simp_all add: grows_def)

lemma grows_items [simp]: "grows s (t\<lparr>items := its\<rparr>) = grows s t"
  by (simp add: grows_def)

lemma grows_append [simp]:
  "grows s (s\<lparr>purchases := purchases s @ ps\<rparr>)"
  "grows s (s\<lparr>transactions := transactions s @ ts\<rparr>)"
  "grows s (s\<lparr>redeemCodes := redeemCodes s @ cs\<rparr>)"
  "grows s (s\<lparr>tickets := tickets s @ ks\<rparr>)"
  by (simp_all add: grows_def)

lemma step_grows: "grows (getInitialState ls) (getInitialState (step op ls))"
proof (cases op)
  case (UpdateItem item)
  then show ?thesis by (simp add: getInitialState_updateItem)
next
  case (ProcessPurchase userId itemId newId now)
  then show ?thesis
    by (cases rule: processPurchase_cases [where userId = userId and itemId = itemId
          and ls = ls and newId = newId and now = now])
       (auto simp: grows_def getUsers_def getPurchases_def)
next
  case (Redeem userId codeStr)
  then show ?thesis
    by (cases rule: redeem_cases [where userId = userId and ls = ls and codeStr = codeStr])
       (auto simp: grows_def getUsers_def getRedeemCodes_def)
next
  case (UpdateTransactionStatus txId status)
  then show ?thesis
    by (auto simp: grows_def getInitialState_updateTransactionStatus split: option.splits)
qed (auto simp: grows_def map_modify_first_keep)

lemma run_grows: "grows (getInitialState ls) (getInitialState (run ops ls))"
  by (rule run_relation [where R = "\<lambda>a b. grows (getInitialState a) (getInitialState b)"])
     (auto intro: grows_trans step_grows)

section \<open>Used codes stay used, closed tickets stay closed, messages are kept\<close>

lemma latched_refl [simp]: "latched s s"
  by (simp add: latched_def)

lemma latched_trans: "latched a b \<Longrightarrow> latched b c \<Longrightarrow> latched a c"
  unfolding latched_def by (meson le_trans less_le_trans prefix_order.order_trans)

lemma latched_frame [simp]:
  "latched s (t\<lparr>users := us\<rparr>) = latched s t"
  "latched s (t\<lparr>items := its\<rparr>) = latched s t"
  "latched s (t\<lparr>purchases := ps\<rparr>) = latched s t"
  "latched s (t\<lparr>transactions := ts\<rparr>) = latched s t"
  by (simp_all add: latched_def)

lemma latched_codes_append [simp]: "latched s (s\<lparr>redeemCodes := redeemCodes s @ cs\<rparr>)"
  by (simp add: latched_def nth_append)

lemma latched_tickets_append [simp]: "latched s (s\<lparr>tickets := tickets s @ ks\<rparr>)"
  by (simp add: latched_def nth_append)

lemma latched_mark_used [simp]: "latched s (s\<lparr>redeemCodes := mark_used k (redeemCodes s)\<rparr>)"
  by (simp add: latched_def isUsed_mark_used)

lemma latched_modify_ticket:
  assumes "\<And>t. ticket_status t = CLOSED \<Longrightarrow> ticket_status (f t) = CLOSED"
    and "\<And>t. prefix (messages t) (messages (f t))"
  shows "latched s (s\<lparr>tickets := modify_first P f (tickets s)\<rparr>)"
  using assms by (simp add: latched_def nth_modify_first)

lemma step_latched: "latched (getInitialState ls) (getInitialState (step op ls))"
proof (cases op)
  case (UpdateItem item)
  then show ?thesis by (simp add: getInitialState_updateItem)
next
  case (ProcessPurchase userId itemId newId now)
  then show ?thesis
    by (cases rule: processPurchase_cases [where userId = userId and itemId = itemId
          and ls = ls and newId = newId and now = now]) auto
next
  case (Redeem userId codeStr)
  then show ?thesis
    by (cases rule: redeem_cases [where userId = userId and ls = ls and codeStr = codeStr])
       (auto simp: getRedeemCodes_def)
qed (auto simp: getInitialState_updateTransactionStatus intro!: latched_modify_ticket)

lemma run_latched: "latched (getInitialState ls) (getInitialState (run ops ls))"
  by (rule run_relation [where R = "\<lambda>a b. latched (getInitialState a) (getInitialState b)"])
     (auto intro: latched_trans step_latched)

section \<open>One call and the ledger\<close>

lemma ledger_simps [simp]:
  "ledger (s\<lparr>items := its\<rparr>) = ledger s"
  "ledger (s\<lparr>transactions := ts\<rparr>) = ledger s"
  "ledger (s\<lparr>redeemCodes := cs\<rparr>) = ledger s"
  "ledger (s\<lparr>tickets := ks\<rparr>) = ledger s"
  "ledger (s\<lparr>users := us\<rparr>) = total_credits us + revenue (purchases s)"
  "ledger (s\<lparr>purchases := ps\<rparr>) = total_credits (users s) + revenue ps"
  by (simp_all add: ledger_def)

lemma step_ledger:
  "ledger (getInitialState (step op ls)) = ledger (getInitialState ls) + inflow op ls"
proof (cases op)
  case (UpdateItem item)
  then show ?thesis by (simp add: getInitialState_updateItem)
next
  case (ProcessPurchase userId itemId newId now)
  then show ?thesis
    by (cases rule: processPurchase_cases [where userId = userId and itemId = itemId
          and ls = ls and newId = newId and now = now])
       (auto simp: ledger_def getUsers_def getPurchases_def total_credits_credit_user)
next
  case (Redeem userId codeStr)
  then show ?thesis
    by (cases rule: redeem_cases [where userId = userId and ls = ls and codeStr = codeStr])
       (auto simp: ledger_def getUsers_def total_credits_credit_user)
next
  case (UpdateTransactionStatus txId status)
  then show ?thesis
    by (auto simp: getInitialState_updateTransactionStatus getTransactions_def getUsers_def
          ledger_def total_credits_credit_user split: option.splits)
qed (auto simp: ledger_def getUsers_def total_credits_credit_user)

lemma run_ledger:
  "ledger (getInitialState (run ops ls)) = ledger (getInitialState ls) + inflows ops ls"
  by (induction ops arbitrary: ls) (auto simp: step_ledger)

section \<open>One call and the balance map\<close>

lemma step_balances:
  "balances (getUsers (step op ls)) = ledger_op op ls (balances (getUsers ls))"
proof (cases op)
  case (UpdateItem item)
  then show ?thesis by (simp add: getUsers_def getInitialState_updateItem)
next
  case (ProcessPurchase userId itemId newId now)
  then show ?thesis
    by (cases rule: processPurchase_cases [where userId = userId and itemId = itemId
          and ls = ls and newId = newId and now = now])
       (auto simp: getUsers_def balances_credit_user split: option.splits)
next
  case (Redeem userId codeStr)
  then show ?thesis
    by (cases rule: redeem_cases [where userId = userId and ls = ls and codeStr = codeStr])
       (auto simp: getUsers_def balances_credit_user)
next
  case (UpdateTransactionStatus txId status)
  then show ?thesis
    by (auto simp: getUsers_def getTransactions_def getInitialState_updateTransactionStatus
          balances_credit_user split: option.splits)
qed (auto simp: getUsers_def balances_credit_user balances_append)

lemma run_balances:
  "balances (getUsers (run ops ls)) = ledger_run ops ls (balances (getUsers ls))"
  by (induction ops arbitrary: ls) (auto simp: step_balances)

section \<open>One call and solvency\<close>

lemma solvent_simps [simp]:
  "solvent (s\<lparr>items := its\<rparr>) = solvent s"
  "solvent (s\<lparr>purchases := ps\<rparr>) = solvent s"
  "solvent (s\<lparr>tickets := ks\<rparr>) = solvent s"
  by (simp_all add: solvent_def)

lemma solvent_first_run: "ls STORAGE_KEY = None \<Longrightarrow> solvent (getInitialState ls)"
  by (simp add: getInitialState_first_run solvent_def)

lemma solvent_credit:
  "solvent s \<Longrightarrow> (\<And>u. find_user uid (users s) = Some u \<Longrightarrow> 0 \<le> credits u + a) \<Longrightarrow>
   solvent (s\<lparr>users := credit_user uid a (users s)\<rparr>)"
  by (simp add: solvent_def credit_user_nonneg)

lemma solvent_credit_nonneg:
  "solvent s \<Longrightarrow> 0 \<le> a \<Longrightarrow> solvent (s\<lparr>users := credit_user uid a (users s)\<rparr>)"
proof (rule solvent_credit)
  fix u
  assume "solvent s" "0 \<le> a" "find_user uid (users s) = Some u"
  then have "0 \<le> credits u"
    using find_user_Some [of uid "users s" u] by (auto simp: solvent_def list_all_iff)
  with \<open>0 \<le> a\<close> show "0 \<le> credits u + a" by simp
qed

lemma solvent_mark_used:
  "solvent s \<Longrightarrow> solvent (s\<lparr>redeemCodes := mark_used k (redeemCodes s)\<rparr>)"
  by (simp add: solvent_def mark_used_def list_all_modify_first_keep [where g = code_amount])

lemma solvent_set_status:
  "solvent s \<Longrightarrow> solvent (s\<lparr>transactions := set_status k st (transactions s)\<rparr>)"
  by (simp add: solvent_def set_status_def list_all_modify_first_keep [where g = tx_amount])

lemma processPurchase_solvent:
  assumes "solvent (getInitialState ls)"
  shows "solvent (getInitialState (snd (processPurchase userId itemId newId now ls)))"
proof (cases rule: processPurchase_cases [where userId = userId and itemId = itemId
      and ls = ls and newId = newId and now = now])
  case (success u i c i')
  then have "solvent ((getInitialState ls)
      \<lparr>users := credit_user userId (- item_price i) (users (getInitialState ls))\<rparr>)"
    by (intro solvent_credit assms) (simp add: getUsers_def)
  with success(5) show ?thesis
    by (simp add: solvent_def getUsers_def)
qed (simp_all add: assms)

lemma redeem_solvent:
  assumes "solvent (getInitialState ls)"
  shows "solvent (getInitialState (snd (redeem userId codeStr ls)))"
proof (cases rule: redeem_cases [where userId = userId and ls = ls and codeStr = codeStr])
  case (success u c rest)
  then have "c \<in> set (redeemCodes (getInitialState ls))"
    using find_code_Some [of codeStr "getRedeemCodes ls" c]
    by (simp add: find_code_unused getRedeemCodes_def)
  with assms have "0 \<le> code_amount c"
    by (simp add: solvent_def list_all_iff)
  with success show ?thesis
    using solvent_credit_nonneg [OF solvent_mark_used [OF assms, of codeStr], of "code_amount c" userId]
    by (simp add: getUsers_def getRedeemCodes_def)
qed (simp_all add: assms)

lemma updateTransactionStatus_solvent:
  assumes "solvent (getInitialState ls)"
  shows "solvent (getInitialState (updateTransactionStatus txId status ls))"
proof (cases "payout txId status (transactions (getInitialState ls))")
  case None
  with assms show ?thesis
    by (simp add: getInitialState_updateTransactionStatus solvent_set_status)
next
  case (Some p)
  obtain uid a where p: "p = (uid, a)" by (cases p)
  with Some assms have "0 \<le> a"
    using payout_Some [of txId status "transactions (getInitialState ls)" uid a]
    by (auto simp: solvent_def list_all_iff)
  with Some p show ?thesis
    using solvent_credit_nonneg [OF solvent_set_status [OF assms, of txId status], of a uid]
    by (simp add: getInitialState_updateTransactionStatus)
qed

lemma step_solvent:
  assumes "solvent (getInitialState ls)" and "benign op"
  shows "solvent (getInitialState (step op ls))"
proof (cases op)
  case (UpdateItem item)
  with assms show ?thesis by (simp add: getInitialState_updateItem)
next
  case (UpdateUserCredits userId amount)
  with assms show ?thesis by (simp add: solvent_credit_nonneg)
next
  case (ProcessPurchase userId itemId newId now)
  with assms show ?thesis by (simp add: processPurchase_solvent)
next
  case (Redeem userId codeStr)
  with assms show ?thesis by (simp add: redeem_solvent)
next
  case (UpdateTransactionStatus txId status)
  with assms show ?thesis by (simp add: updateTransactionStatus_solvent)
qed (use assms in \<open>auto simp: solvent_def\<close>)

lemma reachable_run:
  "reachable ls \<longleftrightarrow> (\<exists>ls0 ops. ls0 STORAGE_KEY = None \<and> list_all benign ops \<and> ls = run ops ls0)"
proof
  assume "reachable ls"
  then show "\<exists>ls0 ops. ls0 STORAGE_KEY = None \<and> list_all benign ops \<and> ls = run ops ls0"
  proof (induction rule: reachable.induct)
    case (first_run ls)
    then have "ls STORAGE_KEY = None \<and> list_all benign [] \<and> ls = run [] ls" by simp
    then show ?case by blast
  next
    case (call ls op)
    then obtain ls0 ops where "ls0 STORAGE_KEY = None" "list_all benign ops" "ls = run ops ls0"
      by blast
    with call.hyps(2) have "ls0 STORAGE_KEY = None \<and> list_all benign (ops @ [op]) \<and>
        step op ls = run (ops @ [op]) ls0"
      by (simp add: run_snoc)
    then show ?case by blast
  qed
next
  assume "\<exists>ls0 ops. ls0 STORAGE_KEY = None \<and> list_all benign ops \<and> ls = run ops ls0"
  then obtain ls0 ops where "ls0 STORAGE_KEY = None" "list_all benign ops" "ls = run ops ls0"
    by blast
  then show "reachable ls"
  proof (induction ops arbitrary: ls rule: rev_induct)
    case Nil
    then show ?case by (simp add: reachable.first_run)
  next
    case (snoc op ops)
    then show ?case by (simp add: run_snoc reachable.call)
  qed
qed

end
