(* ===== verification/Shop_Invariant.thy ===== *)
theory Shop_Invariant
  imports Shop_Machine
begin

text \<open>
  Well-formedness of the stored document, as an invariant that careful callers maintain.

  The code never checks that an identifier is new: \<^verbatim>\<open>addUser\<close>, \<^verbatim>\<open>addItem\<close>,
  \<^verbatim>\<open>addTransaction\<close>, \<^verbatim>\<open>addRedeemCode\<close> and \<^verbatim>\<open>createTicket\<close> push whatever they
  are given, and every lookup takes the first match. The specification's data model speaks
  of "the" user or item with an identifier, which is the document being \<open>well_formed\<close>:
  identifiers of users, items, transactions and tickets occur once, the texts of the codes
  that can still be redeemed occur once, and every item counts its delivered units.
  A call is \<open>careful\<close> in a document when it does what the code leaves to the caller: it
  adds a record only under an identifier that the lookup does not find, and it stores an
  item only if its counter agrees with its units.

  The theory shows that every careful call keeps a well-formed document well-formed, and
  what the operations mean on such a document: an update through a lookup changes exactly
  the records with that identifier, every record is found under its identifier, and at
  most one code answers to a text.
\<close>

section \<open>The invariant\<close>

definition well_formed :: "DBState \<Rightarrow> bool" where
  "well_formed s \<longleftrightarrow>
     distinct (map user_id (users s)) \<and>
     distinct (map item_id (items s)) \<and>
     list_all stock_consistent (items s) \<and>
     distinct (map tx_id (transactions s)) \<and>
     distinct (map code (filter (\<lambda>c. \<not> isUsed c) (redeemCodes s))) \<and>
     distinct (map ticket_id (tickets s))"

fun careful :: "operation \<Rightarrow> DBState \<Rightarrow> bool" where
  "careful (AddUser user) s = (find_user (user_id user) (users s) = None)"
| "careful (AddItem item) s =
     (find_item (item_id item) (items s) = None \<and> stock_consistent item)"
| "careful (UpdateItem item) s = stock_consistent item"
| "careful (AddTransaction transaction) s =
     (find_transaction (tx_id transaction) (transactions s) = None)"
| "careful (AddRedeemCode c) s = (find_code (code c) (redeemCodes s) = None)"
| "careful (CreateTicket ticket) s = (find_ticket (ticket_id ticket) (tickets s) = None)"
| "careful op s = True"

fun careful_ops :: "operation list \<Rightarrow> localStorage \<Rightarrow> bool" where
  "careful_ops [] ls = True"
| "careful_ops (op # ops) ls = (careful op (getInitialState ls) \<and> careful_ops ops (step op ls))"

text \<open>
  \<open>reissues k op\<close>: the call adds a code with the text \<open>k\<close> that can be redeemed.
\<close>

fun reissues :: "string \<Rightarrow> operation \<Rightarrow> bool" where
  "reissues k (AddRedeemCode c) = (code c = k \<and> \<not> isUsed c)"
| "reissues k op = False"

section \<open>Lookups that find nothing\<close>

lemma find_user_None_iff: "find_user k us = None \<longleftrightarrow> k \<notin> user_id ` set us"
  by (auto simp: find_user_def find_None_iff)

lemma find_transaction_None_iff: "find_transaction k ts = None \<longleftrightarrow> k \<notin> tx_id ` set ts"
  by (auto simp: find_transaction_def find_None_iff)

lemma find_ticket_None_iff: "find_ticket k ts = None \<longleftrightarrow> k \<notin> ticket_id ` set ts"
  by (auto simp: find_ticket_def find_None_iff)

lemma find_code_None_set:
  "find_code k cs = None \<longleftrightarrow> k \<notin> code ` set (filter (\<lambda>c. \<not> isUsed c) cs)"
  by (auto simp: find_code_def find_None_iff)

lemmas lookup_None_iff =
  find_user_None_iff find_item_None_iff find_transaction_None_iff find_ticket_None_iff
  find_code_None_set

section \<open>The invariant and the fields of the document\<close>

lemma well_formed_first_run: "ls STORAGE_KEY = None \<Longrightarrow> well_formed (getInitialState ls)"
  by (simp add: getInitialState_first_run well_formed_def)

lemma well_formed_purchases [simp]: "well_formed (s\<lparr>purchases := ps\<rparr>) = well_formed s"
  by (simp add: well_formed_def)

lemma well_formed_users:
  "map user_id us = map user_id (users s) \<Longrightarrow> well_formed (s\<lparr>users := us\<rparr>) = well_formed s"
  by (simp add: well_formed_def)

lemma well_formed_transactions:
  "map tx_id ts = map tx_id (transactions s) \<Longrightarrow>
   well_formed (s\<lparr>transactions := ts\<rparr>) = well_formed s"
  by (simp add: well_formed_def)

lemma well_formed_tickets:
  "map ticket_id ks = map ticket_id (tickets s) \<Longrightarrow>
   well_formed (s\<lparr>tickets := ks\<rparr>) = well_formed s"
  by (simp add: well_formed_def)

lemma well_formed_modify_ticket:
  "(\<And>t. ticket_id (f t) = ticket_id t) \<Longrightarrow>
   well_formed (s\<lparr>tickets := modify_first P f (tickets s)\<rparr>) = well_formed s"
  by (simp add: well_formed_tickets map_modify_first_keep)

lemma well_formed_mark_used:
  "well_formed s \<Longrightarrow> well_formed (s\<lparr>redeemCodes := mark_used k (redeemCodes s)\<rparr>)"
  by (simp add: well_formed_def mark_used_def distinct_filter_modify_first)

lemma well_formed_replace_item:
  assumes "well_formed s" and "stock_consistent item"
  shows "well_formed (s\<lparr>items := modify_first (\<lambda>i. item_id i = item_id item) (\<lambda>_. item) (items s)\<rparr>)"
proof (cases "find (\<lambda>i. item_id i = item_id item) (items s)")
  case None
  with assms(1) show ?thesis by (simp add: modify_first_absent)
next
  case (Some old)
  from set_modify_first [OF Some, of "\<lambda>_. item"] assms
  have "list_all stock_consistent
      (modify_first (\<lambda>i. item_id i = item_id item) (\<lambda>_. item) (items s))"
    by (auto simp: well_formed_def list_all_iff)
  with assms(1) show ?thesis
    by (simp add: well_formed_def map_modify_first_keep)
qed

lemma well_formed_delete_item:
  "well_formed s \<Longrightarrow> well_formed (s\<lparr>items := filter P (items s)\<rparr>)"
  by (auto simp: well_formed_def distinct_map_filter list_all_iff)

section \<open>One call\<close>

lemma processPurchase_well_formed:
  assumes "well_formed (getInitialState ls)"
  shows "well_formed (getInitialState (snd (processPurchase userId itemId newId now ls)))"
proof (cases rule: processPurchase_cases [where userId = userId and itemId = itemId
      and ls = ls and newId = newId and now = now])
  case (success u i c i')
  have id: "item_id i' = itemId"
    using find_item_Some [OF success(2)] fulfil_keeps(1) [OF success(4)] by simp
  have "stock_consistent i'"
    using find_item_Some [OF success(2)] assms fulfil_stock_consistent [OF success(4)]
    by (auto simp: well_formed_def list_all_iff getItems_def)
  from well_formed_replace_item [OF assms this] id show ?thesis
    by (simp add: success(5) getItems_def getUsers_def well_formed_users)
qed (simp_all add: assms)

lemma redeem_well_formed:
  assumes "well_formed (getInitialState ls)"
  shows "well_formed (getInitialState (snd (redeem userId codeStr ls)))"
  by (cases rule: redeem_cases [where userId = userId and ls = ls and codeStr = codeStr])
     (simp_all add: assms getUsers_def getRedeemCodes_def well_formed_users well_formed_mark_used)

lemma updateTransactionStatus_well_formed:
  assumes "well_formed (getInitialState ls)"
  shows "well_formed (getInitialState (updateTransactionStatus txId status ls))"
  using assms
  by (auto simp: getInitialState_updateTransactionStatus well_formed_users
        well_formed_transactions split: option.splits)

lemma step_well_formed:
  assumes "well_formed (getInitialState ls)" and "careful op (getInitialState ls)"
  shows "well_formed (getInitialState (step op ls))"
proof (cases op)
  case (UpdateItem item)
  with assms show ?thesis
    by (simp add: getInitialState_updateItem well_formed_replace_item)
next
  case (ProcessPurchase userId itemId newId now)
  with assms(1) show ?thesis by (simp add: processPurchase_well_formed)
next
  case (Redeem userId codeStr)
  with assms(1) show ?thesis by (simp add: redeem_well_formed)
next
  case (UpdateTransactionStatus txId status)
  with assms(1) show ?thesis by (simp add: updateTransactionStatus_well_formed)
next
  case (DeleteItem itemId)
  with assms(1) show ?thesis by (simp add: well_formed_delete_item)
next
  case (UpdateUserCredits userId amount)
  with assms(1) show ?thesis by (simp add: well_formed_users)
next
  case (AddTicketMessage ticketId message now)
  with assms(1) show ?thesis by (simp add: well_formed_modify_ticket)
next
  case (CloseTicket ticketId now)
  with assms(1) show ?thesis by (simp add: well_formed_modify_ticket)
qed (use assms in \<open>auto simp: well_formed_def lookup_None_iff\<close>)

lemma careful_ops_append:
  "careful_ops (ops @ ops') ls \<longleftrightarrow> careful_ops ops ls \<and> careful_ops ops' (run ops ls)"
  by (induction ops arbitrary: ls) auto

section \<open>What the operations mean on a well-formed document\<close>

lemma credit_user_well_formed:
  "distinct (map user_id us) \<Longrightarrow>
   credit_user uid a us =
     map (\<lambda>u. if user_id u = uid then u\<lparr>credits := credits u + a\<rparr> else u) us"
  by (simp add: credit_user_def modify_first_distinct)

lemma find_user_well_formed:
  "distinct (map user_id us) \<Longrightarrow> u \<in> set us \<Longrightarrow> find_user (user_id u) us = Some u"
  by (simp add: find_user_def find_distinct)

lemma find_item_well_formed:
  "distinct (map item_id xs) \<Longrightarrow> i \<in> set xs \<Longrightarrow> find_item (item_id i) xs = Some i"
  by (simp add: find_item_def find_distinct)

lemma unused_distinct:
  assumes "distinct (map code (filter (\<lambda>c. \<not> isUsed c) cs))"
  shows "length (unused k cs) \<le> 1"
proof -
  have "unused k cs = filter (\<lambda>c. code c = k) (filter (\<lambda>c. \<not> isUsed c) cs)"
    by (simp add: unused_def conj_commute)
  with assms show ?thesis
    using filter_key_distinct [of code "filter (\<lambda>c. \<not> isUsed c) cs" k] by simp
qed

lemma unused_well_formed: "well_formed s \<Longrightarrow> length (unused k (redeemCodes s)) \<le> 1"
  using unused_distinct [of "redeemCodes s" k] by (simp add: well_formed_def)

section \<open>A redeemed code is spent\<close>

lemma redeem_exhausts:
  assumes "distinct (map code (filter (\<lambda>c. \<not> isUsed c) (getRedeemCodes ls)))"
    and "fst (redeem userId codeStr ls) = Inr a"
  shows "unused codeStr (getRedeemCodes (snd (redeem userId codeStr ls))) = []"
  using assms(2)
proof (cases rule: redeem_cases [where userId = userId and ls = ls and codeStr = codeStr])
  case (success u c rest)
  from unused_distinct [OF assms(1), of codeStr] success(2) have "rest = []"
    by simp
  with success show ?thesis
    by (simp add: getRedeemCodes_def unused_mark_used)
qed simp_all

lemma unused_mark_used_empty:
  "unused k cs = [] \<Longrightarrow> unused k (mark_used k' cs) = []"
  by (cases "k = k'") (simp_all add: unused_mark_used unused_mark_used_other)

lemma step_unused_empty:
  assumes "unused k (getRedeemCodes ls) = []" and "\<not> reissues k op"
  shows "unused k (getRedeemCodes (step op ls)) = []"
proof (cases op)
  case (UpdateItem item)
  with assms(1) show ?thesis by (simp add: getRedeemCodes_def getInitialState_updateItem)
next
  case (ProcessPurchase userId itemId newId now)
  with assms(1) show ?thesis
    by (cases rule: processPurchase_cases [where userId = userId and itemId = itemId
          and ls = ls and newId = newId and now = now])
       (simp_all add: getRedeemCodes_def)
next
  case (Redeem userId codeStr)
  with assms(1) show ?thesis
    by (cases rule: redeem_cases [where userId = userId and ls = ls and codeStr = codeStr])
       (simp_all add: getRedeemCodes_def unused_mark_used_empty)
next
  case (UpdateTransactionStatus txId status)
  with assms(1) show ?thesis
    by (auto simp: getRedeemCodes_def getInitialState_updateTransactionStatus
          split: option.splits)
next
  case (AddRedeemCode c)
  with assms show ?thesis by (auto simp: unused_def)
qed (use assms(1) in \<open>simp_all add: getRedeemCodes_def\<close>)

lemma run_unused_empty:
  "unused k (getRedeemCodes ls) = [] \<Longrightarrow> list_all (\<lambda>op. \<not> reissues k op) ops \<Longrightarrow>
   unused k (getRedeemCodes (run ops ls)) = []"
  by (induction ops arbitrary: ls) (auto simp: step_unused_empty)

end
