(* ===== verification/Spec2Isabelle.thy ===== *)
theory Spec2Isabelle
  imports Shop_Invariant
begin

text \<open>
  \<^bold>\<open>A verification of the shop's data-access layer (\<^verbatim>\<open>src/db.ts\<close>).\<close>

  \<^bold>\<open>The program.\<close> \<^verbatim>\<open>src/db.ts\<close> exports one object, \<^verbatim>\<open>DB\<close>, whose methods are the
  only access to the shop's data: users and their credits, items for sale (delivered at
  once, or unit by unit from a stock), the log of purchases, top-up transactions, redeem
  codes and support tickets. All of it is one document, \<^verbatim>\<open>DBState\<close>, stored as JSON
  under one key of the browser's \<^verbatim>\<open>localStorage\<close>. Every method loads the document
  (\<^verbatim>\<open>getInitialState\<close>), searches or changes its arrays and, unless it returns early,
  stores the whole document again (\<^verbatim>\<open>saveState\<close>). The methods do not call each other;
  they interact through the stored document only, and the caller is single-threaded.

  \<^bold>\<open>The theories,\<close> in import order.
  \<^item> \<open>Shop_Prelude\<close>: the array idioms of the code as list functions (\<open>findIndex\<close>,
    \<open>modify_first\<close>, the library's \<^const>\<open>find\<close>), their lemmas, and the collection
    \<open>db_defs\<close> of the operations' defining equations.
  \<^item> \<open>Shop_Types\<close>: the entities of \<^verbatim>\<open>./types\<close> as records and datatypes. That module
    is not among the sources; the records follow the specification's data model and the
    fields \<^verbatim>\<open>src/db.ts\<close> touches.
  \<^item> \<open>Storage\<close> (lines 7 to 34): \<open>DBState\<close>, \<open>STORAGE_KEY\<close>, \<open>getInitialState\<close>,
    \<open>saveState\<close>; \<^verbatim>\<open>localStorage\<close> is a map from keys to documents.
  \<^item> \<open>Users\<close> (lines 37 to 57): \<open>getUsers\<close>, \<open>addUser\<close>, \<open>verifyUser\<close>,
    \<open>updateUserCredits\<close>; the shared lookup \<open>find_user\<close> and in-place credit
    \<open>credit_user\<close>; the abstract view \<open>balances\<close> with \<open>open_account\<close> and
    \<open>credit_account\<close>.
  \<^item> \<open>Items\<close> (lines 59 to 80): \<open>getItems\<close>, \<open>addItem\<close>, \<open>updateItem\<close>,
    \<open>deleteItem\<close>, \<open>find_item\<close>; sequences of additions and deletions and their net
    effect (\<open>run_item_ops\<close>, \<open>net\<close>).
  \<^item> \<open>Purchases\<close> (lines 82 to 121): \<open>getPurchases\<close>, \<open>addPurchase\<close>,
    \<open>processPurchase\<close> with its delivery branch \<open>fulfil\<close>; the stock vocabulary
    (\<open>units\<close>, \<open>available\<close>, \<open>delivered\<close>, \<open>stock_consistent\<close>); repeated purchases
    (\<open>purchase_all\<close>).
  \<^item> \<open>Transactions\<close> (lines 123 to 141): \<open>getTransactions\<close>, \<open>addTransaction\<close>,
    \<open>updateTransactionStatus\<close>; \<open>payout\<close> names the credit an update pays.
  \<^item> \<open>RedeemCodes\<close> (lines 143 to 162): \<open>getRedeemCodes\<close>, \<open>addRedeemCode\<close>,
    \<open>redeem\<close>; \<open>unused\<close> names the codes that can still be redeemed.
  \<^item> \<open>Tickets\<close> (lines 164 to 188): \<open>getTickets\<close>, \<open>createTicket\<close>,
    \<open>addTicketMessage\<close>, \<open>closeTicket\<close>; \<open>fresh\<close> is the specification's invariant on
    \<open>lastUpdated\<close>.
  \<^item> \<open>Shop_Machine\<close>: the layer as one state machine. \<open>operation\<close> lists the fourteen
    methods that can write, \<open>step\<close> dispatches a call, \<open>run\<close> executes a sequence of
    calls. It holds the one-step lemmas for the relations \<open>grows\<close> and \<open>latched\<close>, the
    \<open>ledger\<close> with its \<open>inflow\<close>, the abstract ledger \<open>ledger_op\<close>, and the inductive
    predicate \<open>reachable\<close> with the invariant \<open>solvent\<close>.
  \<^item> \<open>Shop_Invariant\<close>: the well-formedness the data model assumes and the code never
    checks (\<open>well_formed\<close>: unique identifiers, unique redeemable code texts, counters that
    agree with the stock), the obligations of a caller that maintains it (\<open>careful\<close>,
    \<open>careful_ops\<close>), and what lookups and updates mean on a well-formed document.
  \<^item> This theory: the theorems about whole runs, which span all components.

  \<^bold>\<open>How the model corresponds to the code.\<close> A method \<^verbatim>\<open>m(args)\<close> that returns nothing
  is a function \<open>m args :: localStorage \<Rightarrow> localStorage\<close>; a method that returns a result
  object \<^verbatim>\<open>{success, ..., error?}\<close> returns a pair of a sum (\<open>Inl\<close> the error, whose text
  the \<open>_error_message\<close> functions give, \<open>Inr\<close> the payload) and the storage;
  \<open>updateItem\<close> returns its boolean and the storage. The body is the code's: a \<open>let\<close>
  for each statement, a \<open>case\<close> on the result of each \<^verbatim>\<open>find\<close>, the early returns as
  the branches that give the storage back unchanged. An assignment through a reference
  that \<^verbatim>\<open>find\<close> returned is \<open>modify_first\<close>: the arrays come from \<^verbatim>\<open>JSON.parse\<close>,
  so no object occurs at two positions. The values the code takes from its environment are
  parameters: \<open>now\<close> for \<^verbatim>\<open>Date.now()\<close> in \<open>processPurchase\<close>, \<open>addTicketMessage\<close>
  and \<open>closeTicket\<close>, \<open>newId\<close> for \<^verbatim>\<open>Math.random().toString(36).substring(7)\<close>.
  A TypeScript \<^verbatim>\<open>number\<close> is an \<^typ>\<open>int\<close>, which is exact for integral values below
  \<open>2 ^ 53\<close> in magnitude. The code has no loop and the model has no fuel: every definition
  is a total function that evaluates by simplification, which the witnesses do.

  \<^bold>\<open>What is proved.\<close>
  \<^item> Per operation (component theories): the result and the stored document on every
    branch, errors included, stated through the lookups a caller can make; that a failed
    \<open>processPurchase\<close> or \<open>redeem\<close> returns the storage unchanged; that a successful
    purchase never leaves the buyer with negative credits and conserves credits plus logged
    prices; that a stock of \<open>N\<close> units sells exactly \<open>N\<close> times in list order; that
    \<open>deliveredCount\<close> stays equal to the number of delivered units; that approval of a
    transaction pays exactly its amount, and pays again when repeated; that a used code
    cannot be redeemed; that \<open>updateItem\<close> replaces in place and \<open>deleteItem\<close> removes
    all.
  \<^item> Per call, over all components (this theory): at most one record of each collection
    changes, so an update through a lookup touches the first match only, also when
    identifiers repeat.
  \<^item> Per run (this theory): no call writes another key of the storage, and none reads
    one (storages that agree on the key cannot be told apart by any run); users,
    purchases, transactions, codes and tickets are never deleted or reordered, so a logged
    purchase is never changed; used codes stay used and closed tickets stay closed; the
    ledger changes by the inflows only; every call refines one step of the abstract
    balance map; benign callers never produce a user with negative credits; careful callers
    keep the document well-formed; where no two redeemable codes share a text, a redeemed
    code text is refused from then on until a code with that text is added again.

  \<^bold>\<open>Not modelled.\<close> The JSON text of the stored document (a stored value is the document
  itself) and a corrupt stored document; the user interface that calls \<^verbatim>\<open>DB\<close>;
  fractions, \<^verbatim>\<open>NaN\<close> and rounding of IEEE doubles; the distribution of
  \<^verbatim>\<open>Math.random()\<close> (identifiers of purchases may collide; nothing proved here
  depends on them).

  \<^bold>\<open>Plan for extensions.\<close> Bounds under which all sums stay below \<open>2 ^ 53\<close>; the
  delivery latch over runs without item replacement or deletion; an abstract stock map
  refined by \<open>processPurchase\<close>; the purchase log as a history from which credits and
  stock of a well-formed document can be recomputed.
\<close>

section \<open>Runs of calls\<close>

lemma run_other_key: "k \<noteq> STORAGE_KEY \<Longrightarrow> run ops ls k = ls k"
  by (induction ops arbitrary: ls) (auto simp: step_other_key)

lemma reachable_solvent: "reachable ls \<Longrightarrow> solvent (getInitialState ls)"
  by (induction rule: reachable.induct) (auto simp: solvent_first_run step_solvent)

text \<open>
  C20: whatever sequence of calls is made, the layer writes the one key \<open>STORAGE_KEY\<close>:
  every other key of the storage holds after the run what it held before.
\<close>

theorem storage_frame:
  assumes "k \<noteq> STORAGE_KEY"
  shows "run ops ls k = ls k"
  using assms by (rule run_other_key)

theorem storage_frame_witness:
  "run [AddUser example_user, AddItem example_instant, ProcessPurchase ''U'' ''I'' ''p1'' 7]
     Map.empty ''theme'' = None"
  using storage_frame [of "''theme''"
      "[AddUser example_user, AddItem example_instant, ProcessPurchase ''U'' ''I'' ''p1'' 7]"
      Map.empty]
  by (simp add: STORAGE_KEY_def)

text \<open>
  C21: the layer reads the one key \<open>STORAGE_KEY\<close>. Two storages that hold the same value
  under it cannot be told apart by any caller: after the same run of calls they hold the same
  document under the key, and a \<open>processPurchase\<close>, \<open>redeem\<close> or \<open>updateItem\<close> made then
  answers the same in both, whatever the other keys hold.
\<close>

theorem storage_reads_one_key:
  assumes "ls' STORAGE_KEY = ls STORAGE_KEY"
  shows "run ops ls' STORAGE_KEY = run ops ls STORAGE_KEY \<and>
    getInitialState (run ops ls') = getInitialState (run ops ls) \<and>
    fst (processPurchase userId itemId newId now (run ops ls')) =
      fst (processPurchase userId itemId newId now (run ops ls)) \<and>
    fst (redeem userId codeStr (run ops ls')) = fst (redeem userId codeStr (run ops ls)) \<and>
    fst (updateItem item (run ops ls')) = fst (updateItem item (run ops ls))"
proof -
  from assms have key: "run ops ls' STORAGE_KEY = run ops ls STORAGE_KEY"
  proof (induction ops arbitrary: ls ls')
    case Nil
    then show ?case by simp
  next
    case (Cons op ops)
    from Cons.prems have "step op ls' STORAGE_KEY = step op ls STORAGE_KEY"
      by (rule step_key_cong)
    then have "run ops (step op ls') STORAGE_KEY = run ops (step op ls) STORAGE_KEY"
      by (rule Cons.IH)
    then show ?case by simp
  qed
  from key have "getInitialState (run ops ls') = getInitialState (run ops ls)"
    by (rule getInitialState_cong)
  with key show ?thesis
    using processPurchase_key_cong [of "run ops ls'" "run ops ls"]
      redeem_key_cong [of "run ops ls'" "run ops ls"]
      updateItem_key_cong [of "run ops ls'" "run ops ls"]
    by simp
qed

theorem storage_reads_one_key_witness:
  "getInitialState (run [ProcessPurchase ''U'' ''I'' ''p1'' 7]
      (example_shop(''backup'' \<mapsto> getInitialState Map.empty))) =
   getInitialState (run [ProcessPurchase ''U'' ''I'' ''p1'' 7] example_shop) \<and>
   fst (redeem ''U'' ''WELCOME10'' (example_codes(''backup'' \<mapsto> getInitialState Map.empty))) =
     Inr 10"
  using storage_reads_one_key
    [of "example_shop(''backup'' \<mapsto> getInitialState Map.empty)" example_shop
        "[ProcessPurchase ''U'' ''I'' ''p1'' 7]"]
    storage_reads_one_key
    [of "example_codes(''backup'' \<mapsto> getInitialState Map.empty)" example_codes "[]"
        "''U''" _ _ _ "''WELCOME10''"]
  by (simp add: STORAGE_KEY_def redeem_def Let_def getUsers_def find_code_def)

text \<open>
  C8: no call deletes, reorders or renames a record outside the items. After any run the
  purchase log extends the old log, so a purchase once logged is never changed or removed,
  and the identifiers of users, transactions and tickets and the texts of the redeem codes
  extend the old ones in order.
\<close>

theorem records_append_only:
  "prefix (getPurchases ls) (getPurchases (run ops ls)) \<and>
   prefix (map user_id (getUsers ls)) (map user_id (getUsers (run ops ls))) \<and>
   prefix (map tx_id (getTransactions ls)) (map tx_id (getTransactions (run ops ls))) \<and>
   prefix (map code (getRedeemCodes ls)) (map code (getRedeemCodes (run ops ls))) \<and>
   prefix (map ticket_id (getTickets ls)) (map ticket_id (getTickets (run ops ls)))"
  using run_grows [of ls ops]
  by (simp add: grows_def getPurchases_def getUsers_def getTransactions_def
        getRedeemCodes_def getTickets_def)

text \<open>
  C16: the latches of the data model hold over every run: a redeem code that is marked used
  stays used at its position, a ticket that is CLOSED stays CLOSED (no call reopens it),
  and the messages of a ticket are only ever extended.
\<close>

theorem latches_hold:
  "(\<forall>n < length (getRedeemCodes ls).
      isUsed (getRedeemCodes ls ! n) \<longrightarrow> isUsed (getRedeemCodes (run ops ls) ! n)) \<and>
   (\<forall>n < length (getTickets ls).
      (ticket_status (getTickets ls ! n) = CLOSED \<longrightarrow>
         ticket_status (getTickets (run ops ls) ! n) = CLOSED) \<and>
      prefix (messages (getTickets ls ! n)) (messages (getTickets (run ops ls) ! n)))"
  using run_latched [of ls ops]
  by (simp add: latched_def getRedeemCodes_def getTickets_def)

theorem latches_hold_witness:
  "isUsed (getRedeemCodes
     (run [AddRedeemCode welcome_code, Redeem ''U'' ''WELCOME10'']
        (snd (redeem ''U'' ''WELCOME10'' example_codes))) ! 0)"
  using latches_hold [of "snd (redeem ''U'' ''WELCOME10'' example_codes)"
      "[AddRedeemCode welcome_code, Redeem ''U'' ''WELCOME10'']"]
  by (simp add: redeem_def Let_def getUsers_def getRedeemCodes_def)

text \<open>
  C9: the books balance over every run. The sum of all credits plus the sum of all logged
  prices after a run is what it was before plus the inflows of the calls: credits enter
  through \<open>addUser\<close>, \<open>updateUserCredits\<close>, approvals and redeemed codes (and logged prices
  through \<open>addPurchase\<close>) only, and \<open>processPurchase\<close> creates and destroys none.
\<close>

theorem ledger_accounting:
  "ledger (getInitialState (run ops ls)) = ledger (getInitialState ls) + inflows ops ls"
  by (rule run_ledger)

text \<open>
  C19: the users, seen as a map from identifiers to credits, are a refinement of the abstract
  ledger: a run of calls has on the balance map the effect of the corresponding sequence of
  \<open>open_account\<close> and \<open>credit_account\<close> steps, each call changing at most one entry.
\<close>

theorem balances_refinement:
  "balances (getUsers (run ops ls)) = ledger_run ops ls (balances (getUsers ls))"
  by (rule run_balances)

text \<open>
  C10: benign callers never overdraw an account. In every storage reachable from a first run
  by calls that inject no negative amount (no negative initial credits, credit updates,
  transaction amounts or code amounts; prices and everything else unrestricted), every user
  that can be found has credits of at least zero.
\<close>

theorem reachable_credits_nonneg:
  assumes "reachable ls" and "find_user uid (getUsers ls) = Some u"
  shows "0 \<le> credits u"
proof -
  from assms(1) have "solvent (getInitialState ls)" by (rule reachable_solvent)
  with find_user_Some [OF assms(2)] show ?thesis
    by (simp add: solvent_def list_all_iff getUsers_def)
qed

theorem reachable_credits_nonneg_witness:
  "reachable (run [AddUser example_user, AddItem example_instant,
                   ProcessPurchase ''U'' ''I'' ''p1'' 7] Map.empty) \<and>
   find_user ''U'' (getUsers (run [AddUser example_user, AddItem example_instant,
                   ProcessPurchase ''U'' ''I'' ''p1'' 7] Map.empty)) =
     Some \<lparr>user_id = ''U'', role = USER, credits = 70\<rparr> \<and>
   (0::int) \<le> credits \<lparr>user_id = ''U'', role = USER, credits = 70\<rparr>"
proof -
  let ?ops = "[AddUser example_user, AddItem example_instant, ProcessPurchase ''U'' ''I'' ''p1'' 7]"
  have r: "reachable (run ?ops Map.empty)"
    by (subst reachable_run) (rule exI [of _ Map.empty], rule exI [of _ ?ops], simp)
  have f: "find_user ''U'' (getUsers (run ?ops Map.empty)) =
      Some \<lparr>user_id = ''U'', role = USER, credits = 70\<rparr>"
    by (simp add: processPurchase_def fulfil_def Let_def getUsers_def getInitialState_first_run)
  from reachable_credits_nonneg [OF r f] r f show ?thesis by simp
qed

text \<open>
  C17: careful callers keep the document well-formed. If identifiers are unique, the
  redeemable code texts are unique and every item counts its delivered units, then after
  any run in which each record is added under an identifier that its lookup does not find,
  and items are stored with a counter that agrees with their units, the same holds; all
  other calls, whatever their arguments, need no care.
\<close>

theorem careful_run_well_formed:
  assumes "well_formed (getInitialState ls)" and "careful_ops ops ls"
  shows "well_formed (getInitialState (run ops ls))"
  using assms
proof (induction ops arbitrary: ls)
  case Nil
  then show ?case by simp
next
  case (Cons op ops)
  from Cons.prems have "well_formed (getInitialState (step op ls))"
    by (simp add: step_well_formed)
  with Cons.prems(2) show ?case by (simp add: Cons.IH)
qed

theorem careful_run_well_formed_witness:
  "careful_ops [AddUser example_user, AddItem example_sequential,
                ProcessPurchase ''U'' ''S'' ''p1'' 7, AddRedeemCode welcome_code,
                Redeem ''U'' ''WELCOME10'', AddRedeemCode welcome_code] Map.empty \<and>
   well_formed (getInitialState
     (run [AddUser example_user, AddItem example_sequential,
           ProcessPurchase ''U'' ''S'' ''p1'' 7, AddRedeemCode welcome_code,
           Redeem ''U'' ''WELCOME10'', AddRedeemCode welcome_code] Map.empty))"
proof -
  let ?ops = "[AddUser example_user, AddItem example_sequential,
               ProcessPurchase ''U'' ''S'' ''p1'' 7, AddRedeemCode welcome_code,
               Redeem ''U'' ''WELCOME10'', AddRedeemCode welcome_code]"
  have c: "careful_ops ?ops Map.empty"
    by (simp add: processPurchase_def fulfil_def redeem_def Let_def getInitialState_first_run
          stock_consistent_def delivered_def units_def find_code_def)
  from careful_run_well_formed [OF well_formed_first_run c] c show ?thesis by simp
qed

text \<open>
  C18: a call changes at most one record of each collection. Whatever the call and whatever
  the document (identifiers may repeat), at most one user, one transaction, one redeem code
  and one ticket differ afterwards from the record at the same position before, and no
  logged purchase differs; the same holds for the items unless the call is \<open>deleteItem\<close>,
  which keeps exactly the items with another identifier. An update through a lookup
  therefore changes the first match and leaves every later record with the same identifier
  alone.
\<close>

theorem one_record_per_call:
  "changed (getUsers ls) (getUsers (step op ls)) \<le> 1 \<and>
   changed (getTransactions ls) (getTransactions (step op ls)) \<le> 1 \<and>
   changed (getRedeemCodes ls) (getRedeemCodes (step op ls)) \<le> 1 \<and>
   changed (getTickets ls) (getTickets (step op ls)) \<le> 1 \<and>
   changed (getPurchases ls) (getPurchases (step op ls)) = 0 \<and>
   (case op of
      DeleteItem k \<Rightarrow> getItems (step op ls) = filter (\<lambda>i. item_id i \<noteq> k) (getItems ls)
    | _ \<Rightarrow> changed (getItems ls) (getItems (step op ls)) \<le> 1)"
proof (cases op)
  case (UpdateItem item)
  then show ?thesis
    by (simp add: getInitialState_updateItem getter_defs)
next
  case (ProcessPurchase userId itemId newId now)
  then show ?thesis
    by (cases rule: processPurchase_cases [where userId = userId and itemId = itemId
          and ls = ls and newId = newId and now = now])
       (simp_all add: getter_defs credit_user_def)
next
  case (Redeem userId codeStr)
  then show ?thesis
    by (cases rule: redeem_cases [where userId = userId and ls = ls and codeStr = codeStr])
       (simp_all add: getter_defs credit_user_def mark_used_def)
next
  case (UpdateTransactionStatus txId status)
  then show ?thesis
    by (auto simp: getInitialState_updateTransactionStatus getter_defs credit_user_def
          set_status_def split: option.splits)
qed (simp_all add: getter_defs credit_user_def)

theorem one_record_per_call_witness:
  "changed
     [example_ticket, example_ticket]
     (getTickets (step (CloseTicket (ticket_id example_ticket) 99)
        [STORAGE_KEY \<mapsto> (getInitialState Map.empty)\<lparr>tickets := [example_ticket, example_ticket]\<rparr>]))
   = 1"
  using one_record_per_call
    [of "[STORAGE_KEY \<mapsto> (getInitialState Map.empty)\<lparr>tickets := [example_ticket, example_ticket]\<rparr>]"
        "CloseTicket (ticket_id example_ticket) 99"]
  by (simp add: getTickets_def getInitialState_first_run)

text \<open>
  C13: a code is redeemed once. On a document in which no two redeemable codes share a
  text, after a successful \<open>redeem\<close> of a code text, and after any further calls that do not
  add a redeemable code with that text again, every \<open>redeem\<close> of the text fails, for every
  user, and returns the storage as it is, so no credits move.
\<close>

theorem redeem_once:
  assumes "distinct (map code (filter (\<lambda>c. \<not> isUsed c) (getRedeemCodes ls)))"
    and "fst (redeem userId codeStr ls) = Inr a"
    and "list_all (\<lambda>op. \<not> reissues codeStr op) ops"
  shows "redeem userId' codeStr (run ops (snd (redeem userId codeStr ls))) =
     (if find_user userId' (getUsers (run ops (snd (redeem userId codeStr ls)))) = None
      then Inl UserNotFound else Inl InvalidOrUsedCode,
      run ops (snd (redeem userId codeStr ls)))"
proof -
  let ?ls' = "run ops (snd (redeem userId codeStr ls))"
  from redeem_exhausts [OF assms(1,2)] assms(3)
  have "unused codeStr (getRedeemCodes ?ls') = []"
    by (rule run_unused_empty)
  then show ?thesis
    by (cases rule: redeem_cases [where userId = userId' and ls = ?ls' and codeStr = codeStr])
       simp_all
qed

theorem redeem_once_witness:
  "redeem ''U'' ''WELCOME10''
     (run [UpdateUserCredits ''U'' 5, AddRedeemCode \<lparr>code = ''SPRING'', code_amount = 3, isUsed = False\<rparr>]
        (snd (redeem ''U'' ''WELCOME10'' example_codes))) =
   (Inl InvalidOrUsedCode,
    run [UpdateUserCredits ''U'' 5, AddRedeemCode \<lparr>code = ''SPRING'', code_amount = 3, isUsed = False\<rparr>]
        (snd (redeem ''U'' ''WELCOME10'' example_codes)))"
  using redeem_once [of example_codes "''U''" "''WELCOME10''" 10
      "[UpdateUserCredits ''U'' 5, AddRedeemCode \<lparr>code = ''SPRING'', code_amount = 3, isUsed = False\<rparr>]"
      "''U''"]
  by (simp add: redeem_def Let_def getUsers_def find_code_def)

end
